theory Spec2Isabelle
  imports Complex_Main
begin

section \<open>Python values and exceptions\<close>

text \<open>
  The exceptions that the modelled functions can raise. A function that can raise
  returns \<open>pyerr + 'a\<close>, with \<open>Inl\<close> for the exception.
\<close>

datatype pyerr =
    AssertionError
  | IndexError
  | KeyError
  | TypeError
  | ValueError
  | RuntimeError
  | OverflowError
  | FileNotFoundError
  | NameError

text \<open>
  Floating-point numbers are idealised as reals. The one thing kept from IEEE arithmetic
  is \<open>nan\<close>: numpy does not raise on \<open>0/0\<close>, and \<open>pearsonr\<close> returns \<open>nan\<close>
  for a constant input. Arithmetic with \<open>nan\<close> gives \<open>nan\<close>, and every comparison
  with \<open>nan\<close> is false.
\<close>

datatype pyfloat = Real real | NaN

fun fadd :: "pyfloat \<Rightarrow> pyfloat \<Rightarrow> pyfloat" where
  "fadd (Real a) (Real b) = Real (a + b)"
| "fadd _ _ = NaN"

text \<open>Division by a non-zero constant, as in \<open>total / 5\<close>.\<close>

fun fdiv_const :: "pyfloat \<Rightarrow> real \<Rightarrow> pyfloat" where
  "fdiv_const (Real a) c = Real (a / c)"
| "fdiv_const NaN c = NaN"

fun fgt :: "pyfloat \<Rightarrow> pyfloat \<Rightarrow> bool" where
  "fgt (Real a) (Real b) = (a > b)"
| "fgt _ _ = False"

fun feq :: "pyfloat \<Rightarrow> pyfloat \<Rightarrow> bool" where
  "feq (Real a) (Real b) = (a = b)"
| "feq _ _ = False"

text \<open>Python's \<open>int(x)\<close> on a float truncates towards zero.\<close>

definition py_int :: "real \<Rightarrow> int" where
  "py_int x = (if 0 \<le> x then \<lfloor>x\<rfloor> else \<lceil>x\<rceil>)"

section \<open>modes\_generator.py\<close>

text \<open>
  \<open>generate_deformed_conformation\<close>: the assertion on the amplitude, the list of
  frequencies \<open>range(start_mode, end_mode + 1)\<close>, the integer half amplitude, and the
  nested loop over the frequencies and the five displacements. The value returned by
  the model is the sequence of calls \<open>deformation_rtb(..., frequency, dq, ...)\<close> made by
  the loop, in order; the external program run by each call is not modelled.
\<close>

definition generate_deformed_conformation ::
  "real \<Rightarrow> int \<Rightarrow> int \<Rightarrow> pyerr + (int \<times> real) list" where
  "generate_deformed_conformation amplitude start_mode end_mode =
     (if \<not> amplitude > 0 then Inl AssertionError
      else
        let frequencies = [start_mode..end_mode];
            one_half = py_int (amplitude / 2)
        in Inr (concat (map (\<lambda>frequency.
                  map (\<lambda>dq. (frequency, dq))
                    [- amplitude, - real_of_int one_half, 0, real_of_int one_half, amplitude])
                frequencies)))"

section \<open>stop\_iter.py\<close>

text \<open>
  The overall log is a spreadsheet. A worksheet is the list of its rows, a row the list
  of its cells; rows and columns are numbered from 1, as openpyxl does. The log file is
  a \<open>worksheet option\<close>: \<open>None\<close> when the file does not exist.
\<close>

datatype cell = Text string | Number pyfloat | Blank

type_synonym worksheet = "cell list list"

text \<open>\<open>create_log\<close>: a new workbook whose only row is the header.\<close>

definition create_log :: "string \<Rightarrow> worksheet option" where
  "create_log whether_contain_rmsd_reference =
     (if whether_contain_rmsd_reference = ''yes''
      then Some [[Text ''Deformed fig name'', Text ''CC of this iter'', Text ''Largest mode'',
                  Text ''Amplitude'', Text ''Last 5 iter average CC'',
                  Text ''RMSD to Initial'', Text ''RMSD to Reference'']]
      else Some [[Text ''Deformed fig name'', Text ''CC of this iter'', Text ''Largest mode'',
                  Text ''Amplitude'', Text ''Last 5 iter average CC'',
                  Text ''RMSD to Initial'']])"

text \<open>\<open>worksheet.max_row\<close> and \<open>worksheet.max_column\<close>; both are 1 on an empty sheet.\<close>

definition max_row :: "worksheet \<Rightarrow> int" where
  "max_row ws = (if ws = [] then 1 else int (length ws))"

definition max_column :: "worksheet \<Rightarrow> int" where
  "max_column ws = fold max (map (\<lambda>r. int (length r)) ws) 1"

text \<open>
  \<open>worksheet.cell(row=r, column=c).value\<close>: openpyxl raises ValueError for a row or a
  column below 1, and gives \<open>None\<close> for a cell that was never written.
\<close>

definition cell_value :: "worksheet \<Rightarrow> int \<Rightarrow> int \<Rightarrow> pyerr + cell" where
  "cell_value ws r c =
     (if r < 1 \<or> c < 1 then Inl ValueError
      else if nat r \<le> length ws \<and> nat c \<le> length (ws ! (nat r - 1))
           then Inr (ws ! (nat r - 1) ! (nat c - 1))
           else Inr Blank)"

text \<open>The list comprehension over the columns \<open>range(1, max_column + 1)\<close> of one row.\<close>

fun row_values_loop :: "worksheet \<Rightarrow> int \<Rightarrow> int list \<Rightarrow> pyerr + cell list" where
  "row_values_loop ws r [] = Inr []"
| "row_values_loop ws r (c # cs) =
     (case cell_value ws r c of
        Inl e \<Rightarrow> Inl e
      | Inr v \<Rightarrow> (case row_values_loop ws r cs of
                    Inl e \<Rightarrow> Inl e
                  | Inr vs \<Rightarrow> Inr (v # vs)))"

definition row_values :: "worksheet \<Rightarrow> int \<Rightarrow> pyerr + cell list" where
  "row_values ws r = row_values_loop ws r [1..max_column ws]"

text \<open>\<open>last_row_values[1]\<close>: the second value of the row.\<close>

definition second_value :: "cell list \<Rightarrow> pyerr + cell" where
  "second_value vs = (if length vs < 2 then Inl IndexError else Inr (vs ! 1))"

text \<open>
  \<open>total_value + last_value\<close>: adding a string or \<open>None\<close> to a number raises TypeError.
\<close>

fun py_add :: "pyfloat \<Rightarrow> cell \<Rightarrow> pyerr + pyfloat" where
  "py_add t (Number v) = Inr (fadd t v)"
| "py_add t (Text s) = Inl TypeError"
| "py_add t Blank = Inl TypeError"

text \<open>
  \<open>read_pre_iter_cc_and_avrg\<close>: the sum of the second column over the last
  \<open>required_num\<close> rows, for \<open>i\<close> in \<open>range(0, required_num, 1)\<close>.
\<close>

fun read_loop :: "worksheet \<Rightarrow> int \<Rightarrow> nat list \<Rightarrow> pyfloat \<Rightarrow> pyerr + pyfloat" where
  "read_loop ws last_row [] total_value = Inr total_value"
| "read_loop ws last_row (i # is) total_value =
     (case row_values ws (last_row - int i) of
        Inl e \<Rightarrow> Inl e
      | Inr last_row_values \<Rightarrow>
          (case second_value last_row_values of
             Inl e \<Rightarrow> Inl e
           | Inr last_value \<Rightarrow>
               (case py_add total_value last_value of
                  Inl e \<Rightarrow> Inl e
                | Inr t \<Rightarrow> read_loop ws last_row is t)))"

definition read_pre_iter_cc_and_avrg :: "worksheet option \<Rightarrow> nat \<Rightarrow> pyerr + pyfloat" where
  "read_pre_iter_cc_and_avrg excel_file required_num =
     (case excel_file of
        None \<Rightarrow> Inl FileNotFoundError
      | Some ws \<Rightarrow> read_loop ws (max_row ws) [0..<required_num] (Real 0))"

text \<open>
  \<open>write_log\<close>: load the workbook, append the record after the last row, save. The
  result is the new state of the file.
\<close>

definition write_log :: "worksheet option \<Rightarrow> cell list \<Rightarrow> pyerr + worksheet option" where
  "write_log io record_list =
     (case io of
        None \<Rightarrow> Inl FileNotFoundError
      | Some ws \<Rightarrow> Inr (Some (ws @ [record_list])))"

text \<open>
  \<open>cc_judgement_avrg\<close>. The similarity of the current conformation to the target is
  given to the model as \<open>cc_call\<close>, the outcome of the call
  \<open>calculation_correlation_pearson_tsv_normalized(target_fig_path, deformed_fig_path)\<close>
  on the two image files. Both \<open>try\<close> blocks catch every exception. The model returns
  the state of the log file after the call together with the outcome.
\<close>

definition cc_judgement_avrg ::
  "string \<Rightarrow> pyerr + pyfloat \<Rightarrow> int \<Rightarrow> pyfloat \<Rightarrow> worksheet option
     \<Rightarrow> worksheet option \<times> (pyerr + bool)" where
  "cc_judgement_avrg deformed_fig_name cc_call mode_max_gradient deform_amplitude excel_file =
     (let cc_last_5_iter_avrg =
            (case read_pre_iter_cc_and_avrg excel_file 5 of
               Inl e \<Rightarrow> Real 0
             | Inr t \<Rightarrow> fdiv_const t 5)
      in case cc_call of
           Inl e \<Rightarrow> (excel_file, Inl e)
         | Inr cc_iter \<Rightarrow>
             let cc_iter_this_iter_avrg =
                   (case read_pre_iter_cc_and_avrg excel_file 4 of
                      Inl e \<Rightarrow> cc_iter
                    | Inr t \<Rightarrow> fdiv_const (fadd t cc_iter) 5);
                 record_list = [Text deformed_fig_name, Number cc_iter,
                                Number (Real (real_of_int mode_max_gradient)),
                                Number deform_amplitude, Number cc_iter_this_iter_avrg]
             in (case write_log excel_file record_list of
                   Inl e \<Rightarrow> (excel_file, Inl e)
                 | Inr excel_file' \<Rightarrow>
                     (excel_file', Inr (fgt cc_iter_this_iter_avrg cc_last_5_iter_avrg))))"

text \<open>\<open>read_pre_iter_cc\<close>: the second value of the last row, whatever it is.\<close>

definition read_pre_iter_cc :: "worksheet option \<Rightarrow> pyerr + cell" where
  "read_pre_iter_cc excel_file =
     (case excel_file of
        None \<Rightarrow> Inl FileNotFoundError
      | Some ws \<Rightarrow>
          (case row_values ws (max_row ws) of
             Inl e \<Rightarrow> Inl e
           | Inr last_row_values \<Rightarrow> second_value last_row_values))"

text \<open>\<open>cc_iter > cc_last_iter\<close>: a number compared with a string or \<open>None\<close> raises TypeError.\<close>

fun py_gt_cell :: "pyfloat \<Rightarrow> cell \<Rightarrow> pyerr + bool" where
  "py_gt_cell a (Number b) = Inr (fgt a b)"
| "py_gt_cell a (Text s) = Inl TypeError"
| "py_gt_cell a Blank = Inl TypeError"

text \<open>
  \<open>cc_judgement_single\<close>. Its \<open>try\<close> block catches FileNotFoundError only; any
  other exception of \<open>read_pre_iter_cc\<close> propagates.
\<close>

definition cc_judgement_single ::
  "string \<Rightarrow> pyerr + pyfloat \<Rightarrow> int \<Rightarrow> pyfloat \<Rightarrow> worksheet option
     \<Rightarrow> worksheet option \<times> (pyerr + bool)" where
  "cc_judgement_single deformed_fig_name cc_call mode_max_gradient deform_amplitude excel_file =
     (case (case read_pre_iter_cc excel_file of
              Inl FileNotFoundError \<Rightarrow> Inr (Number (Real 0))
            | Inl e \<Rightarrow> Inl e
            | Inr v \<Rightarrow> Inr v) of
        Inl e \<Rightarrow> (excel_file, Inl e)
      | Inr cc_last_iter \<Rightarrow>
          (case cc_call of
             Inl e \<Rightarrow> (excel_file, Inl e)
           | Inr cc_iter \<Rightarrow>
               let record_list = [Text deformed_fig_name, Number cc_iter,
                                  Number (Real (real_of_int mode_max_gradient)),
                                  Number deform_amplitude]
               in (case write_log excel_file record_list of
                     Inl e \<Rightarrow> (excel_file, Inl e)
                   | Inr excel_file' \<Rightarrow> (excel_file', py_gt_cell cc_iter cc_last_iter))))"

text \<open>
  The rolling average as the specification words it: the mean of the similarity over the
  most recent five records, the current one included, or over all of them when fewer
  exist. \<open>ccs\<close> are the similarities logged so far, oldest first, the current one last.
\<close>

definition rolling_mean_spec :: "real list \<Rightarrow> real" where
  "rolling_mean_spec ccs =
     (let window = drop (length ccs - 5) ccs
      in sum_list window / real (length window))"

section \<open>slope\_of\_gradient.py: fits and ranking\<close>

text \<open>
  A row of the similarity table \<open>df_pcc\<close> (columns \<open>mode\<close>, \<open>dq\<close>, \<open>cc\<close>) and a row of
  the table of fits \<open>df_slopes\<close> (columns \<open>mode\<close>, \<open>slope\<close>, \<open>intercept\<close>).
\<close>

record sample =
  mode :: int
  dq :: int
  cc :: real

record mode_fit =
  fit_mode :: int
  slope :: real
  intercept :: real

text \<open>
  \<open>slope_calculation\<close>: the least-squares line of \<open>cc\<close> against \<open>dq\<close> that
  \<open>LinearRegression().fit\<close> computes. The fit raises ValueError on an empty table; when
  all \<open>dq\<close> are equal the least-norm solution has slope 0.
\<close>

definition slope_calculation :: "sample list \<Rightarrow> pyerr + real \<times> real" where
  "slope_calculation df =
     (if df = [] then Inl ValueError
      else
        let x = map (\<lambda>s. real_of_int (dq s)) df;
            y = map cc df;
            n = real (length df);
            x_mean = sum_list x / n;
            y_mean = sum_list y / n;
            sxx = sum_list (map (\<lambda>a. (a - x_mean) * (a - x_mean)) x);
            sxy = sum_list (map2 (\<lambda>a b. (a - x_mean) * (b - y_mean)) x y);
            slope = (if sxx = 0 then 0 else sxy / sxx);
            intercept = y_mean - slope * x_mean
        in Inr (slope, intercept))"

text \<open>
  \<open>df.sort_values(by=[key], ascending=False)\<close>, called without \<open>kind\<close>: pandas
  reverses the rows, sorts them in ascending order of the key with numpy's quicksort and
  reverses the result. numpy's quicksort sorts an array of at most 17 elements by
  insertion alone, which leaves elements of equal key in the order it finds them
  (\<open>sort_key\<close> is such a sort). A longer array is first partitioned around medians of
  three, and elements of equal key may change places there: the sort is not stable. That
  part of the library is a parameter of the model, \<open>long_argsort\<close>: for the array of
  the keys it gives the positions of the elements in ascending order of key.
\<close>

definition sort_values_descending ::
  "(real list \<Rightarrow> nat list) \<Rightarrow> ('a \<Rightarrow> real) \<Rightarrow> 'a list \<Rightarrow> 'a list" where
  "sort_values_descending long_argsort key df =
     (let reversed = rev df
      in rev (if length reversed \<le> 17 then sort_key key reversed
              else map (\<lambda>i. reversed ! i) (long_argsort (map key reversed))))"


text \<open>
  The positions in the order of an insertion sort. It stands for \<open>long_argsort\<close> in
  the examples: their tables have at most 17 rows, but for one of 18 rows whose keys are
  all different, which every sort orders alike.
\<close>

definition insertion_argsort :: "real list \<Rightarrow> nat list" where
  "insertion_argsort v = sort_key (\<lambda>i. v ! i) [0..<length v]"

text \<open>
  \<open>find_largest_slopes\<close>: \<open>.iloc[0]\<close> and \<open>.iloc[1]\<close> raise IndexError when the
  sorted table has no such row.
\<close>

definition find_largest_slopes ::
  "(real list \<Rightarrow> nat list) \<Rightarrow> mode_fit list \<Rightarrow> pyerr + (int \<times> real \<times> int \<times> real)" where
  "find_largest_slopes long_argsort df0 =
     (let df = sort_values_descending long_argsort (\<lambda>r. \<bar>slope r\<bar>) df0
      in if length df < 1 then Inl IndexError
         else if length df < 2 then Inl IndexError
         else Inr (fit_mode (df ! 0), slope (df ! 0), fit_mode (df ! 1), slope (df ! 1)))"

text \<open>
  The loop of \<open>process_data_tsv\<close> over \<open>range(start_mode, end_mode + 1)\<close>, which appends
  one fit per mode to \<open>df_slopes\<close>, and the function itself, which returns the fits and
  the similarity table sorted by decreasing \<open>cc\<close>. The argument \<open>df_pcc\<close> is the table
  that \<open>cc_calculation_pearson_tsv\<close> builds from the image files of the iteration; the
  spreadsheet of the step, which is only written, is left out.
\<close>

fun slopes_loop :: "sample list \<Rightarrow> int list \<Rightarrow> mode_fit list \<Rightarrow> pyerr + mode_fit list" where
  "slopes_loop df_pcc [] df_slopes = Inr df_slopes"
| "slopes_loop df_pcc (i # is) df_slopes =
     (case slope_calculation (sort_key (\<lambda>s. dq s) (filter (\<lambda>s. mode s = i) df_pcc)) of
        Inl e \<Rightarrow> Inl e
      | Inr (sl, ic) \<Rightarrow>
          slopes_loop df_pcc is (df_slopes @ [\<lparr>fit_mode = i, slope = sl, intercept = ic\<rparr>]))"

definition process_data_tsv ::
  "(real list \<Rightarrow> nat list) \<Rightarrow> sample list \<Rightarrow> int \<Rightarrow> int \<Rightarrow> pyerr + (mode_fit list \<times> sample list)" where
  "process_data_tsv long_argsort df_pcc start_mode end_mode =
     (case slopes_loop df_pcc [start_mode..end_mode] [] of
        Inl e \<Rightarrow> Inl e
      | Inr df_slopes \<Rightarrow> Inr (df_slopes, sort_values_descending long_argsort cc df_pcc))"

section \<open>nmff\_afm.py: the iteration loop\<close>

text \<open>The parameters read from the parameter file that the loop uses.\<close>

record params =
  original_conformation :: string
  calculate_rmsd_to_reference :: string
  combined_amplitude :: real
  first_mode :: int
  last_mode :: int
  mode_selection :: string
  num_iterations :: int

text \<open>
  The name of the conformation of an iteration, kept in parsed form: the stem and the
  step number after \<open>#s\<close>, \<open>None\<close> when the name has no \<open>#\<close> (the initial name;
  \<open>check_folders_and_print\<close> rejects an initial name with a \<open>#\<close> in it).
\<close>

datatype conf_name = ConfName string "nat option"

fun filename_of_next_iter :: "conf_name \<Rightarrow> conf_name" where
  "filename_of_next_iter (ConfName temp (Some postfix)) = ConfName temp (Some (postfix + 1))"
| "filename_of_next_iter (ConfName previous_name None) = ConfName previous_name (Some 1)"

fun str_nat :: "nat \<Rightarrow> string" where
  "str_nat n = (if n < 10 then [''0123456789'' ! n]
                else str_nat (n div 10) @ [''0123456789'' ! (n mod 10)])"

fun name_str :: "conf_name \<Rightarrow> string" where
  "name_str (ConfName temp None) = temp"
| "name_str (ConfName temp (Some postfix)) = temp @ ''#s'' @ str_nat postfix"

text \<open>
  What one pass of the loop gets from the external programs (normal-mode analysis,
  deformation, image simulation) and the image files: the similarity table of the
  deformed conformations, and the outcome of the similarity call on the current
  conformation that the judgement functions make.
\<close>

record iter_obs =
  cc_table :: "sample list"
  cc_call :: "pyerr + pyfloat"

record run_state =
  overall_log_file :: "worksheet option"
  initial_conformation_iter :: conf_name
  deformed_times :: int

text \<open>
  The choice of the move (lines 170 to 193): \<open>find_largest_slopes\<close> is called first,
  whatever the strategy. In the \<open>slope\<close> branch \<open>first_slope / abs(first_slope)\<close> on
  numpy floats is \<open>nan\<close> when the slope is 0.
\<close>

definition select_move ::
  "(real list \<Rightarrow> nat list) \<Rightarrow> string \<Rightarrow> real \<Rightarrow> mode_fit list \<Rightarrow> sample list \<Rightarrow> pyerr + (int \<times> pyfloat)" where
  "select_move long_argsort mode_sel amplitude df_slopes df_pcc =
     (case find_largest_slopes long_argsort df_slopes of
        Inl e \<Rightarrow> Inl e
      | Inr (largest_mode, first_slope, second_largest_mode, second_slope) \<Rightarrow>
          if mode_sel = ''slope'' then
            Inr (largest_mode,
                 if first_slope = 0 then NaN
                 else Real (first_slope / \<bar>first_slope\<bar> * amplitude))
          else if mode_sel = ''maxcc'' then
            (case df_pcc of
               [] \<Rightarrow> Inl IndexError
             | s # _ \<Rightarrow> Inr (mode s, Real (real_of_int (dq s))))
          else if mode_sel = ''maxcc_force_move'' then
            (let df_not_zero = filter (\<lambda>s. dq s \<noteq> 0) df_pcc
             in if df_pcc = [] then Inl IndexError
                else (case df_not_zero of
                        [] \<Rightarrow> Inl IndexError
                      | s # _ \<Rightarrow> Inr (mode s, Real (real_of_int (dq s)))))
          else Inl ValueError)"

text \<open>
  The first half of a pass: the deformations are generated, the fits computed and the
  move chosen.
\<close>

definition chosen_move ::
  "(real list \<Rightarrow> nat list) \<Rightarrow> params \<Rightarrow> iter_obs \<Rightarrow> pyerr + (int \<times> pyfloat)" where
  "chosen_move long_argsort p obs =
     (case generate_deformed_conformation (combined_amplitude p) (first_mode p) (last_mode p) of
        Inl e \<Rightarrow> Inl e
      | Inr calls \<Rightarrow>
          (case process_data_tsv long_argsort (cc_table obs) (first_mode p) (last_mode p) of
             Inl e \<Rightarrow> Inl e
           | Inr (df_slopes, df_pcc) \<Rightarrow>
               select_move long_argsort (mode_selection p) (combined_amplitude p) df_slopes df_pcc))"

text \<open>
  The second half (lines 195 to 211): the judgement is made and the record written.
  The result is the new state of the log and \<open>stop_bool\<close>.
\<close>

definition whether_to_stop ::
  "string \<Rightarrow> int \<Rightarrow> iter_obs \<Rightarrow> run_state \<Rightarrow> int \<Rightarrow> pyfloat
     \<Rightarrow> pyerr + (worksheet option \<times> bool)" where
  "whether_to_stop termination_criterion iteration_to_stop obs st num_of_largest_mode
       deform_amplitude_1 =
     (if termination_criterion = ''average'' then
        (case cc_judgement_avrg (name_str (initial_conformation_iter st)) (cc_call obs)
                num_of_largest_mode deform_amplitude_1 (overall_log_file st) of
           (f, Inl e) \<Rightarrow> Inl e
         | (f, Inr b) \<Rightarrow> Inr (f, b))
      else if termination_criterion = ''numeric'' then
        (if deformed_times st = iteration_to_stop \<or> feq deform_amplitude_1 (Real 0) then
           (case cc_judgement_avrg (name_str (initial_conformation_iter st)) (cc_call obs)
                   num_of_largest_mode deform_amplitude_1 (overall_log_file st) of
              (f, Inl e) \<Rightarrow> Inl e
            | (f, Inr b) \<Rightarrow> Inr (f, False))
         else
           (case cc_judgement_avrg (name_str (initial_conformation_iter st)) (cc_call obs)
                   num_of_largest_mode deform_amplitude_1 (overall_log_file st) of
              (f, Inl e) \<Rightarrow> Inl e
            | (f, Inr b) \<Rightarrow> Inr (f, True)))
      else
        (case cc_judgement_single (name_str (initial_conformation_iter st)) (cc_call obs)
                num_of_largest_mode deform_amplitude_1 (overall_log_file st) of
           (f, Inl e) \<Rightarrow> Inl e
         | (f, Inr b) \<Rightarrow> Inr (f, b)))"

text \<open>
  The loop \<open>for i in range(num_iterations + 10)\<close>, as a recursion over the list of the
  values of \<open>i\<close>. \<open>env i\<close> is what pass \<open>i\<close> observes. An exception ends the run; a
  false \<open>stop_bool\<close> leaves the loop; otherwise the next conformation is prepared and
  the counter is advanced.
\<close>

fun main_loop ::
  "(real list \<Rightarrow> nat list) \<Rightarrow> string \<Rightarrow> params \<Rightarrow> (nat \<Rightarrow> iter_obs) \<Rightarrow> nat list \<Rightarrow> run_state \<Rightarrow> pyerr + run_state" where
  "main_loop long_argsort termination_criterion p env [] st = Inr st"
| "main_loop long_argsort termination_criterion p env (i # is) st =
     (case chosen_move long_argsort p (env i) of
        Inl e \<Rightarrow> Inl e
      | Inr (num_of_largest_mode, deform_amplitude_1) \<Rightarrow>
          (case whether_to_stop termination_criterion (num_iterations p) (env i) st
                  num_of_largest_mode deform_amplitude_1 of
             Inl e \<Rightarrow> Inl e
           | Inr (f, stop_bool) \<Rightarrow>
               if \<not> stop_bool then Inr (st\<lparr>overall_log_file := f\<rparr>)
               else main_loop long_argsort termination_criterion p env is
                      \<lparr>overall_log_file = f,
                       initial_conformation_iter =
                         filename_of_next_iter (initial_conformation_iter st),
                       deformed_times = deformed_times st + 1\<rparr>))"

text \<open>
  The run up to the end of the loop, with the termination criterion that the program
  fixes (\<open>termination_criterion = "numeric"\<close>).
\<close>

definition run_iterations ::
  "(real list \<Rightarrow> nat list) \<Rightarrow> params \<Rightarrow> (nat \<Rightarrow> iter_obs) \<Rightarrow> pyerr + run_state" where
  "run_iterations long_argsort p env =
     main_loop long_argsort ''numeric'' p env [0..<nat (num_iterations p + 10)]
       \<lparr>overall_log_file = create_log (calculate_rmsd_to_reference p),
        initial_conformation_iter = ConfName (original_conformation p) None,
        deformed_times = 0\<rparr>"

section \<open>slope\_of\_gradient.py: the similarity of two images\<close>

text \<open>
  An image file read by \<open>np.loadtxt\<close> is a two-dimensional array: the list of its rows,
  all of one length. \<open>flatten\<close> lays the rows end to end.
\<close>

type_synonym image = "real list list"


definition flatten :: "image \<Rightarrow> real list" where
  "flatten img = concat img"

text \<open>\<open>.min()\<close> and \<open>.max()\<close> of a non-empty array.\<close>

definition array_min :: "real list \<Rightarrow> real" where
  "array_min xs = fold min (tl xs) (hd xs)"

definition array_max :: "real list \<Rightarrow> real" where
  "array_max xs = fold max (tl xs) (hd xs)"

text \<open>
  The entries of a normalised array, \<open>shifted / max\<close>. When the maximum is 0 numpy
  gives \<open>0/0 = nan\<close> at the minimum of the image and \<open>inf\<close> at the other entries; the
  result of \<open>pearsonr\<close> on such an array is \<open>nan\<close> either way, and the model marks every
  entry of it as \<open>NaN\<close>.
\<close>

definition np_divide :: "real \<Rightarrow> real \<Rightarrow> pyfloat" where
  "np_divide v m = (if m = 0 then NaN else Real (v / m))"

fun reals_of :: "pyfloat list \<Rightarrow> real list option" where
  "reals_of [] = Some []"
| "reals_of (Real v # xs) = map_option (\<lambda>vs. v # vs) (reals_of xs)"
| "reals_of (NaN # xs) = None"

text \<open>
  The statistic of \<open>scipy.stats.pearsonr\<close>: the inputs are centred, divided by their
  Euclidean norms and multiplied, and the result is clipped to \<open>[-1, 1]\<close>.
\<close>

definition pearson_statistic :: "real list \<Rightarrow> real list \<Rightarrow> real" where
  "pearson_statistic x y =
     (let xmean = sum_list x / real (length x);
          ymean = sum_list y / real (length y);
          xm = map (\<lambda>v. v - xmean) x;
          ym = map (\<lambda>v. v - ymean) y;
          normxm = sqrt (sum_list (map (\<lambda>v. v * v) xm));
          normym = sqrt (sum_list (map (\<lambda>v. v * v) ym));
          r = sum_list (map2 (\<lambda>a b. a / normxm * (b / normym)) xm ym)
      in max (min r 1) (- 1))"

text \<open>
  \<open>pearsonr(x, y)[0]\<close>: ValueError when the lengths differ or are below 2; \<open>nan\<close> when
  an input is constant or holds a \<open>nan\<close>.
\<close>

definition pearsonr :: "pyfloat list \<Rightarrow> pyfloat list \<Rightarrow> pyerr + pyfloat" where
  "pearsonr x y =
     (let n = length x
      in if n \<noteq> length y then Inl ValueError
         else if n < 2 then Inl ValueError
         else (case (reals_of x, reals_of y) of
                 (Some xs, Some ys) \<Rightarrow>
                   if list_all (\<lambda>v. v = hd xs) xs \<or> list_all (\<lambda>v. v = hd ys) ys
                   then Inr NaN
                   else Inr (Real (pearson_statistic xs ys))
               | _ \<Rightarrow> Inr NaN))"

text \<open>
  \<open>calculation_correlation_pearson_tsv_normalized\<close>, on the two arrays read from the
  files. Each array has its minimum subtracted and is divided by the maximum of the
  array as read (\<open>pmat.max()\<close>, not the maximum of the shifted array). The minimum of
  an empty array raises ValueError.
\<close>

definition calculation_correlation_pearson_tsv_normalized ::
  "image \<Rightarrow> image \<Rightarrow> pyerr + pyfloat" where
  "calculation_correlation_pearson_tsv_normalized pmat imat =
     (if flatten pmat = [] \<or> flatten imat = [] then Inl ValueError
      else
        let shifted_pmat = map (\<lambda>v. v - array_min (flatten pmat)) (flatten pmat);
            shifted_imat = map (\<lambda>v. v - array_min (flatten imat)) (flatten imat);
            normalized_pmat_flatten =
              map (\<lambda>v. np_divide v (array_max (flatten pmat))) shifted_pmat;
            normalized_imat_flatten =
              map (\<lambda>v. np_divide v (array_max (flatten imat))) shifted_imat
        in pearsonr normalized_pmat_flatten normalized_imat_flatten)"

section \<open>scoring\_and\_export.py: the decay steps\<close>

text \<open>
  \<open>u = int(np.ceil(np.log(p) / b_fit + 1))\<close>. With \<open>b_fit = 0\<close> the quotient is
  \<open>-inf\<close> and \<open>int\<close> raises OverflowError.
\<close>

definition decay_step :: "real \<Rightarrow> real \<Rightarrow> pyerr + int" where
  "decay_step p b_fit =
     (if b_fit = 0 then Inl OverflowError else Inr \<lceil>ln p / b_fit + 1\<rceil>)"

text \<open>
  The loop over \<open>p_list\<close> at the end of \<open>save_time_series_plot\<close> (and of its twin
  without the reference column). \<open>m\<close> is \<open>A_RMSD.index.max()\<close>, the last step of the log.
  The state is the global \<open>num_of_step\<close>, unset at first, and the warnings printed, each
  kept as the values \<open>(p, u, m)\<close> of its message. \<open>A_RMSD.loc[u, ...]\<close> raises KeyError
  when \<open>u\<close> is not a step of the log.
\<close>

fun decay_loop ::
  "real \<Rightarrow> int \<Rightarrow> real list \<Rightarrow> int option \<Rightarrow> (real \<times> int \<times> int) list
     \<Rightarrow> pyerr + (int option \<times> (real \<times> int \<times> int) list)" where
  "decay_loop b_fit m [] num_of_step warnings = Inr (num_of_step, warnings)"
| "decay_loop b_fit m (p # ps) num_of_step warnings =
     (case decay_step p b_fit of
        Inl e \<Rightarrow> Inl e
      | Inr u0 \<Rightarrow>
          let warnings' = (if u0 > m then warnings @ [(p, u0, m)] else warnings);
              u = (if u0 > m then m else u0);
              num_of_step' = (if p = 3 / 100 then Some u else num_of_step)
          in if u < 0 \<or> m < u then Inl KeyError
             else decay_loop b_fit m ps num_of_step' warnings')"

text \<open>
  \<open>save_time_series_plot\<close> from the fit on. \<open>fit\<close> is the outcome of
  \<open>curve_fit(exponential_func, x, y, p0=[1, -1])\<close>, which raises RuntimeError when the
  least-squares fit does not converge; the call is not inside any \<open>try\<close>. The plots
  are left out. Returning a \<open>num_of_step\<close> that was never set would raise NameError.
\<close>

datatype fit_outcome = FitError pyerr | FitParams real real

definition save_time_series_plot ::
  "fit_outcome \<Rightarrow> int \<Rightarrow> pyerr + (int \<times> (real \<times> int \<times> int) list)" where
  "save_time_series_plot fit m =
     (case fit of
        FitError e \<Rightarrow> Inl e
      | FitParams a_fit b_fit \<Rightarrow>
          (case decay_loop b_fit m [5 / 100, 3 / 100, 1 / 100] None [] of
             Inl e \<Rightarrow> Inl e
           | Inr (None, warnings) \<Rightarrow> Inl NameError
           | Inr (Some num_of_step, warnings) \<Rightarrow> Inr (num_of_step, warnings)))"

text \<open>
  \<open>scoring_conformations\<close>: both of its branches get the turning point from the
  analysis and hand it to \<open>write_result_step_to_xlsx\<close>, which writes \<open>s<result>\<close> in
  column 9 of row \<open>result + 2\<close> of the log. The model returns the turning point, the
  warnings and that cell.
\<close>

definition write_result_step_to_xlsx :: "int \<Rightarrow> int \<times> int \<times> string" where
  "write_result_step_to_xlsx result = (result + 2, 9, ''s'' @ str_nat (nat result))"

definition scoring_conformations ::
  "fit_outcome \<Rightarrow> int \<Rightarrow> pyerr + (int \<times> (real \<times> int \<times> int) list \<times> (int \<times> int \<times> string))" where
  "scoring_conformations fit m =
     (case save_time_series_plot fit m of
        Inl e \<Rightarrow> Inl e
      | Inr (turning_point, warnings) \<Rightarrow>
          Inr (turning_point, warnings, write_result_step_to_xlsx turning_point))"

section \<open>nmff\_afm.py: the whole run\<close>

text \<open>
  The whole run: the loop, then the scoring of the logged trajectory, whose last step
  is the number of records less one. Nothing in \<open>__main__\<close> catches an exception of
  either. (The distances to the initial and reference structures, computed in between by
  an external program, are left out.)
\<close>

definition last_step :: "worksheet option \<Rightarrow> int" where
  "last_step f = (case f of None \<Rightarrow> - 1 | Some ws \<Rightarrow> int (length ws) - 2)"

definition main ::
  "(real list \<Rightarrow> nat list) \<Rightarrow> params \<Rightarrow> (nat \<Rightarrow> iter_obs) \<Rightarrow> fit_outcome
     \<Rightarrow> pyerr + (run_state \<times> int \<times> (real \<times> int \<times> int) list \<times> (int \<times> int \<times> string))" where
  "main long_argsort p env fit =
     (case run_iterations long_argsort p env of
        Inl e \<Rightarrow> Inl e
      | Inr st \<Rightarrow>
          (case scoring_conformations fit (last_step (overall_log_file st)) of
             Inl e \<Rightarrow> Inl e
           | Inr result \<Rightarrow> Inr (st, result)))"

section \<open>Sampled amplitudes\<close>

lemma py_int_pos: "0 \<le> x \<Longrightarrow> py_int x = \<lfloor>x\<rfloor>"
  by (simp add: py_int_def)

text \<open>
  Claim C6. With a combined amplitude \<open>A > 0\<close> the deformation loop runs, and for every
  mode of the range the displacements sampled are exactly
  \<open>{-A, -int(A/2), 0, int(A/2), A}\<close>, where \<open>int(A/2)\<close> is \<open>A/2\<close> truncated to an
  integer (its floor, as \<open>A/2\<close> is positive). For \<open>A = 10\<close> the set is
  \<open>{-10, -5, 0, 5, 10}\<close>.
\<close>

theorem sampled_amplitudes_exact:
  assumes "0 < A"
  shows "\<exists>calls. generate_deformed_conformation A start_mode end_mode = Inr calls
           \<and> (\<forall>m \<in> {start_mode..end_mode}.
                 {dq. (m, dq) \<in> set calls}
                   = {- A, - real_of_int (py_int (A / 2)), 0, real_of_int (py_int (A / 2)), A})
           \<and> py_int (A / 2) = \<lfloor>A / 2\<rfloor>
           \<and> (A = 10 \<longrightarrow> (\<forall>m \<in> {start_mode..end_mode}.
                 {dq. (m, dq) \<in> set calls} = {-10, -5, 0, 5, 10}))"
proof -
  let ?h = "real_of_int (py_int (A / 2))"
  let ?calls = "concat (map (\<lambda>frequency. map (\<lambda>dq. (frequency, dq)) [- A, - ?h, 0, ?h, A])
                  [start_mode..end_mode])"
  have run: "generate_deformed_conformation A start_mode end_mode = Inr ?calls"
    using assms by (simp add: generate_deformed_conformation_def Let_def)
  have sets: "{dq. (m, dq) \<in> set ?calls} = {- A, - ?h, 0, ?h, A}"
    if "m \<in> {start_mode..end_mode}" for m
    using that by auto
  have half: "py_int (A / 2) = \<lfloor>A / 2\<rfloor>"
    using assms by (simp add: py_int_pos)
  have ten: "{dq. (m, dq) \<in> set ?calls} = {-10, -5, 0, 5, 10}"
    if "m \<in> {start_mode..end_mode}" and "A = 10" for m
  proof -
    have "py_int (A / 2) = 5"
      using that(2) by (simp add: py_int_def)
    then show ?thesis
      using sets [OF that(1)] that(2) by simp
  qed
  show ?thesis
    using run sets half ten by blast
qed

theorem sampled_amplitudes_exact_witness:
  "\<exists>calls. generate_deformed_conformation 10 7 9 = Inr calls
     \<and> {dq. (7, dq) \<in> set calls} = {-10, -5, 0, 5, 10}
     \<and> {dq. (9, dq) \<in> set calls} = {-10, -5, 0, 5, 10}"
proof -
  have pos: "(0::real) < 10" by simp
  from sampled_amplitudes_exact [OF pos, of 7 9]
  obtain calls where c: "generate_deformed_conformation 10 7 9 = Inr calls"
    and s: "\<forall>m \<in> {7..9}. {dq. (m, dq) \<in> set calls} = {-10, -5, 0, 5, 10}"
    by auto
  have "(7::int) \<in> {7..9}" "(9::int) \<in> {7..9}" by simp_all
  with c s show ?thesis by blast
qed

section \<open>The trajectory log\<close>

lemma row_values_loop_ok:
  "1 \<le> r \<Longrightarrow> \<forall>c \<in> set cs. 1 \<le> c \<Longrightarrow>
   row_values_loop ws r cs = Inr (map (\<lambda>c. if nat r \<le> length ws \<and> nat c \<le> length (ws ! (nat r - 1))
           then ws ! (nat r - 1) ! (nat c - 1) else Blank) cs)"
  by (induction cs) (auto simp: cell_value_def)

lemma row_values_low: "r < 1 \<Longrightarrow> 1 \<le> max_column ws \<Longrightarrow> row_values ws r = Inl ValueError"
proof -
  assume a: "r < 1" "1 \<le> max_column ws"
  then have "[1..max_column ws] = 1 # [2..max_column ws]"
    by (simp add: upto_rec1)
  then show ?thesis using a by (simp add: row_values_def cell_value_def)
qed

lemma fold_max_ge: "(a::int) \<le> fold max xs a"
  by (induction xs arbitrary: a) (auto intro: order_trans [OF max.cobounded2])

lemma fold_max_mem: "(x::int) \<in> set xs \<Longrightarrow> x \<le> fold max xs a"
proof (induction xs arbitrary: a)
  case Nil then show ?case by simp
next
  case (Cons y ys)
  show ?case
  proof (cases "x = y")
    case True
    have "y \<le> max y a" by simp
    also have "\<dots> \<le> fold max ys (max y a)" by (rule fold_max_ge)
    finally show ?thesis using True by simp
  next
    case False
    with Cons show ?thesis by simp
  qed
qed

lemma max_column_ge: "row \<in> set ws \<Longrightarrow> int (length row) \<le> max_column ws"
  unfolding max_column_def by (rule fold_max_mem) simp

lemma second_of_row:
  assumes "1 \<le> r" "nat r \<le> length ws" "2 \<le> length (ws ! (nat r - 1))"
  shows "row_values ws r = Inr vs \<Longrightarrow> second_value vs = Inr (ws ! (nat r - 1) ! 1)"
    and "\<exists>vs. row_values ws r = Inr vs"
proof -
  have mem: "ws ! (nat r - 1) \<in> set ws"
    using assms by (intro nth_mem) linarith
  have mc: "2 \<le> max_column ws"
    using max_column_ge [OF mem] assms(3) by linarith
  have up: "[1..max_column ws] = 1 # 2 # [3..max_column ws]"
    using mc by (simp add: upto_rec1)
  have rv: "row_values ws r = Inr (map (\<lambda>c. if nat r \<le> length ws \<and> nat c \<le> length (ws ! (nat r - 1))
           then ws ! (nat r - 1) ! (nat c - 1) else Blank) [1..max_column ws])"
    unfolding row_values_def by (rule row_values_loop_ok) (use assms in auto)
  show "\<exists>vs. row_values ws r = Inr vs" using rv by blast
  show "row_values ws r = Inr vs \<Longrightarrow> second_value vs = Inr (ws ! (nat r - 1) ! 1)"
    using rv up assms by (auto simp: second_value_def)
qed


lemma row_values_header:
  assumes "2 \<le> length hdr" "hdr ! 1 = Text h"
  shows "\<exists>vs. row_values (hdr # rows) 1 = Inr vs \<and> second_value vs = Inr (Text h)"
proof -
  obtain vs where v: "row_values (hdr # rows) 1 = Inr vs"
    using second_of_row(2) [of 1 "hdr # rows"] assms by auto
  have "second_value vs = Inr ((hdr # rows) ! (nat 1 - 1) ! 1)"
    by (rule second_of_row(1) [OF _ _ _ v]) (use assms in auto)
  then show ?thesis using v assms by simp
qed

lemma row_values_data:
  assumes "\<forall>r \<in> set rows. 2 \<le> length r" "i < length rows"
  shows "\<exists>vs. row_values (hdr # rows) (int (length rows) + 1 - int i) = Inr vs
           \<and> second_value vs = Inr (rows ! (length rows - 1 - i) ! 1)"
proof -
  let ?r = "int (length rows) + 1 - int i"
  have n: "nat ?r - 1 = length rows - i" using assms(2) by linarith
  have idx: "(hdr # rows) ! (nat ?r - 1) = rows ! (length rows - 1 - i)"
    using assms(2) n by (simp add: nth_Cons')
  have len: "2 \<le> length ((hdr # rows) ! (nat ?r - 1))"
    using assms idx by simp
  have r1: "1 \<le> ?r" and r2: "nat ?r \<le> length (hdr # rows)"
    using assms(2) by auto
  obtain vs where v: "row_values (hdr # rows) ?r = Inr vs"
    using second_of_row(2) [OF r1 r2 len] by blast
  have "second_value vs = Inr ((hdr # rows) ! (nat ?r - 1) ! 1)"
    by (rule second_of_row(1) [OF r1 r2 len v])
  then show ?thesis using v idx by simp
qed

lemma read_loop_log:
  assumes hdr: "2 \<le> length hdr" "hdr ! 1 = Text h"
    and rows: "\<forall>r \<in> set rows. 2 \<le> length r"
    and ccs: "map (\<lambda>r. r ! 1) rows = map (\<lambda>c. Number (Real c)) ccs"
    and jk: "j \<le> k" "j \<le> length rows"
  shows "read_loop (hdr # rows) (int (length rows) + 1) [j..<k] (Real t)
          = (if k \<le> length rows
             then Inr (Real (t + sum_list (map (\<lambda>i. ccs ! (length rows - 1 - i)) [j..<k])))
             else Inl TypeError)"
  using jk
proof (induction "k - j" arbitrary: j t)
  case 0
  then show ?case by simp
next
  case (Suc d)
  then have lt: "j < k" by simp
  then have up: "[j..<k] = j # [Suc j..<k]" by (simp add: upt_conv_Cons)
  have lenc: "length ccs = length rows"
    using ccs by (metis length_map)
  show ?case
  proof (cases "j < length rows")
    case True
    obtain vs where v: "row_values (hdr # rows) (int (length rows) + 1 - int j) = Inr vs"
      and sv: "second_value vs = Inr (rows ! (length rows - 1 - j) ! 1)"
      using row_values_data [OF rows True] by blast
    have "rows ! (length rows - 1 - j) ! 1 = map (\<lambda>r. r ! 1) rows ! (length rows - 1 - j)"
      using True by simp
    also have "\<dots> = map (\<lambda>c. Number (Real c)) ccs ! (length rows - 1 - j)"
      by (simp only: ccs)
    also have "\<dots> = Number (Real (ccs ! (length rows - 1 - j)))"
      using True lenc by simp
    finally have cellv: "rows ! (length rows - 1 - j) ! 1 = Number (Real (ccs ! (length rows - 1 - j)))" .
    have ih: "read_loop (hdr # rows) (int (length rows) + 1) [Suc j..<k] (Real (t + ccs ! (length rows - 1 - j)))
          = (if k \<le> length rows
             then Inr (Real (t + ccs ! (length rows - 1 - j) + sum_list (map (\<lambda>i. ccs ! (length rows - 1 - i)) [Suc j..<k])))
             else Inl TypeError)"
      by (rule Suc.hyps(1)) (use Suc.hyps(2) lt True in auto)
    show ?thesis
      using v sv cellv ih by (simp add: up add.assoc)
  next
    case False
    with Suc.prems have j: "j = length rows" by simp
    obtain vs where v: "row_values (hdr # rows) 1 = Inr vs"
      and sv: "second_value vs = Inr (Text h)"
      using row_values_header [OF hdr] by blast
    have "[j..<k] = length rows # [Suc (length rows)..<k]"
      using up j by simp
    moreover have "int (length rows) + 1 - int (length rows) = 1" by simp
    ultimately show ?thesis
      using v sv j lt by simp
  qed
qed

lemma rev_index_sum:
  assumes "k \<le> length (ccs :: real list)"
  shows "sum_list (map (\<lambda>i. ccs ! (length ccs - 1 - i)) [0..<k]) = sum_list (drop (length ccs - k) ccs)"
proof -
  have "map (\<lambda>i. ccs ! (length ccs - 1 - i)) [0..<k] = rev (drop (length ccs - k) ccs)"
  proof (rule nth_equalityI)
    show "length (map (\<lambda>i. ccs ! (length ccs - 1 - i)) [0..<k]) = length (rev (drop (length ccs - k) ccs))"
      using assms by simp
  next
    fix i assume "i < length (map (\<lambda>i. ccs ! (length ccs - 1 - i)) [0..<k])"
    then have i: "i < k" by simp
    have "rev (drop (length ccs - k) ccs) ! i = drop (length ccs - k) ccs ! (k - Suc i)"
      using i assms by (simp add: rev_nth)
    also have "\<dots> = ccs ! (length ccs - 1 - i)"
      using i assms by (simp add: nth_drop)
    finally show "map (\<lambda>i. ccs ! (length ccs - 1 - i)) [0..<k] ! i = rev (drop (length ccs - k) ccs) ! i"
      using i by simp
  qed
  then show ?thesis by (simp add: sum_list_rev)
qed

lemma read_pre_iter_log:
  assumes hdr: "2 \<le> length hdr" "hdr ! 1 = Text h"
    and rows: "\<forall>r \<in> set rows. 2 \<le> length r"
    and ccs: "map (\<lambda>r. r ! 1) rows = map (\<lambda>c. Number (Real c)) ccs"
  shows "read_pre_iter_cc_and_avrg (Some (hdr # rows)) k
          = (if k \<le> length ccs then Inr (Real (sum_list (drop (length ccs - k) ccs)))
             else Inl TypeError)"
proof -
  have lenc: "length ccs = length rows"
    using ccs by (metis length_map)
  have "read_loop (hdr # rows) (int (length rows) + 1) [0..<k] (Real 0)
          = (if k \<le> length rows
             then Inr (Real (0 + sum_list (map (\<lambda>i. ccs ! (length rows - 1 - i)) [0..<k])))
             else Inl TypeError)"
    by (rule read_loop_log [OF hdr rows ccs]) simp_all
  then show ?thesis
    using rev_index_sum [of k ccs] lenc
    by (simp add: read_pre_iter_cc_and_avrg_def max_row_def add.commute)
qed


lemma rolling_mean_spec_last5:
  assumes "4 \<le> length ccs"
  shows "rolling_mean_spec (ccs @ [cur]) = (sum_list (drop (length ccs - 4) ccs) + cur) / 5"
proof -
  have "drop (length (ccs @ [cur]) - 5) (ccs @ [cur]) = drop (length ccs - 4) ccs @ [cur]"
    using assms by simp
  moreover have "length (drop (length ccs - 4) ccs @ [cur]) = 5"
    using assms by simp
  ultimately show ?thesis
    by (simp add: rolling_mean_spec_def Let_def del: length_append length_drop drop_append)
qed

text \<open>
  Claim C3, amended. The log holds the header and the records logged so far, with
  similarities \<open>ccs\<close> in its second column. The rolling-average field of the record that
  \<open>cc_judgement_avrg\<close> appends is the mean over the most recent five records (the
  current one and the four before it) when at least four records were logged before;
  with fewer, the read of four earlier rows runs into the header, the exception is
  caught, and the field is the current similarity alone.
\<close>

theorem rolling_average_field:
  assumes "2 \<le> length hdr" and "hdr ! 1 = Text h"
    and "\<forall>r \<in> set rows. 2 \<le> length r"
    and "map (\<lambda>r. r ! 1) rows = map (\<lambda>c. Number (Real c)) ccs"
  shows "fst (cc_judgement_avrg name (Inr (Real cur)) m a (Some (hdr # rows)))
          = Some (hdr # rows @
              [[Text name, Number (Real cur), Number (Real (real_of_int m)), Number a,
                Number (Real (if 4 \<le> length ccs then rolling_mean_spec (ccs @ [cur]) else cur))]])"
proof -
  have r4: "read_pre_iter_cc_and_avrg (Some (hdr # rows)) 4
          = (if 4 \<le> length ccs then Inr (Real (sum_list (drop (length ccs - 4) ccs)))
             else Inl TypeError)"
    by (rule read_pre_iter_log [OF assms])
  show ?thesis
  proof (cases "4 \<le> length ccs")
    case True
    then show ?thesis
      using r4 rolling_mean_spec_last5 [OF True, of cur]
      by (simp add: cc_judgement_avrg_def write_log_def Let_def split: sum.splits)
  next
    case False
    then show ?thesis
      using r4
      by (simp add: cc_judgement_avrg_def write_log_def Let_def split: sum.splits)
  qed
qed

theorem rolling_average_field_witness:
  "fst (cc_judgement_avrg ''p#s4'' (Inr (Real 5)) 7 (Real 10)
      (Some ([Text ''Deformed fig name'', Text ''CC of this iter''] #
         [[Text ''p'', Number (Real 1)], [Text ''p#s1'', Number (Real 2)],
          [Text ''p#s2'', Number (Real 3)], [Text ''p#s3'', Number (Real 4)]])))
    = Some ([Text ''Deformed fig name'', Text ''CC of this iter''] #
         [[Text ''p'', Number (Real 1)], [Text ''p#s1'', Number (Real 2)],
          [Text ''p#s2'', Number (Real 3)], [Text ''p#s3'', Number (Real 4)]] @
         [[Text ''p#s4'', Number (Real 5), Number (Real 7), Number (Real 10), Number (Real 3)]])"
proof -
  have a1: "2 \<le> length [Text ''Deformed fig name'', Text ''CC of this iter'']" by simp
  have a2: "[Text ''Deformed fig name'', Text ''CC of this iter''] ! 1 = Text ''CC of this iter''"
    by simp
  have a3: "\<forall>r \<in> set [[Text ''p'', Number (Real 1)], [Text ''p#s1'', Number (Real 2)],
          [Text ''p#s2'', Number (Real 3)], [Text ''p#s3'', Number (Real 4)]]. 2 \<le> length r"
    by simp
  have a4: "map (\<lambda>r. r ! 1) [[Text ''p'', Number (Real 1)], [Text ''p#s1'', Number (Real 2)],
          [Text ''p#s2'', Number (Real 3)], [Text ''p#s3'', Number (Real 4)]]
        = map (\<lambda>c. Number (Real c)) [1, 2, 3, 4]"
    by simp
  have m: "rolling_mean_spec ([1, 2, 3, 4] @ [5]) = 3"
    by (simp add: rolling_mean_spec_def)
  show ?thesis
    using rolling_average_field [OF a1 a2 a3 a4, of "''p#s4''" 5 7 "Real 10"] m
    by simp
qed

text \<open>
  Claim C3 as stated fails on the second iteration: with one record of similarity \<open>1/5\<close>
  in the log and a current similarity of \<open>2/5\<close>, the field appended is \<open>2/5\<close>, not the
  mean \<open>3/10\<close> of the two records that exist.
\<close>

theorem rolling_average_short_log_counterexample:
  "fst (cc_judgement_avrg ''p#s1'' (Inr (Real (2/5))) 7 (Real 10)
      (Some [[Text ''Deformed fig name'', Text ''CC of this iter'', Text ''Largest mode'',
              Text ''Amplitude'', Text ''Last 5 iter average CC'', Text ''RMSD to Initial''],
             [Text ''p'', Number (Real (1/5)), Number (Real 7), Number (Real 10),
              Number (Real (1/5))]]))
    = Some [[Text ''Deformed fig name'', Text ''CC of this iter'', Text ''Largest mode'',
              Text ''Amplitude'', Text ''Last 5 iter average CC'', Text ''RMSD to Initial''],
             [Text ''p'', Number (Real (1/5)), Number (Real 7), Number (Real 10),
              Number (Real (1/5))],
             [Text ''p#s1'', Number (Real (2/5)), Number (Real 7), Number (Real 10),
              Number (Real (2/5))]]
   \<and> rolling_mean_spec [1/5, 2/5] = 3/10
   \<and> rolling_mean_spec [1/5, 2/5] \<noteq> 2/5"
proof -
  let ?hdr = "[Text ''Deformed fig name'', Text ''CC of this iter'', Text ''Largest mode'',
              Text ''Amplitude'', Text ''Last 5 iter average CC'', Text ''RMSD to Initial'']"
  let ?rows = "[[Text ''p'', Number (Real (1/5)), Number (Real 7), Number (Real 10),
              Number (Real (1/5))]]"
  have r: "read_pre_iter_cc_and_avrg (Some (?hdr # ?rows)) k
          = (if k \<le> length [1/5 :: real] then Inr (Real (sum_list (drop (length [1/5 :: real] - k) [1/5])))
             else Inl TypeError)" for k
    by (rule read_pre_iter_log [where h = "''CC of this iter''"]) simp_all
  have "fst (cc_judgement_avrg ''p#s1'' (Inr (Real (2/5))) 7 (Real 10) (Some (?hdr # ?rows)))
      = Some (?hdr # ?rows @ [[Text ''p#s1'', Number (Real (2/5)), Number (Real 7), Number (Real 10),
              Number (Real (2/5))]])"
    by (simp add: cc_judgement_avrg_def r write_log_def Let_def)
  moreover have "rolling_mean_spec [1/5, 2/5] = 3/10"
    by (simp add: rolling_mean_spec_def)
  ultimately show ?thesis by simp
qed

lemma read_pre_iter_cc_header:
  assumes "2 \<le> length hdr" "hdr ! 1 = Text h"
  shows "read_pre_iter_cc (Some [hdr]) = Inr (Text h)"
proof -
  obtain vs where "row_values [hdr] 1 = Inr vs" "second_value vs = Inr (Text h)"
    using row_values_header [OF assms, of "[]"] by blast
  then show ?thesis by (simp add: read_pre_iter_cc_def max_row_def)
qed

lemma create_log_header:
  "\<exists>hdr. create_log w = Some [hdr] \<and> 2 \<le> length hdr \<and> hdr ! 1 = Text ''CC of this iter''"
  by (simp add: create_log_def)

text \<open>
  Claim C4. On the first iteration the log made by \<open>create_log\<close> holds the header only.
  \<open>cc_judgement_avrg\<close> catches the failed read and compares against the baseline 0.
  \<open>cc_judgement_single\<close> does not: \<open>read_pre_iter_cc\<close> returns the header text
  \<open>CC of this iter\<close> without raising, so the handler for a missing file is not reached,
  and the comparison of the similarity with that text raises TypeError. When the file is
  missing the baseline 0 is taken, and \<open>write_log\<close> then raises FileNotFoundError.
\<close>

theorem first_iteration_judgements:
  "snd (cc_judgement_avrg name (Inr (Real c)) m a (create_log w)) = Inr (c > 0)
   \<and> snd (cc_judgement_single name (Inr (Real c)) m a (create_log w)) = Inl TypeError
   \<and> snd (cc_judgement_single name (Inr (Real c)) m a None) = Inl FileNotFoundError"
proof -
  obtain hdr where h: "create_log w = Some [hdr]" "2 \<le> length hdr" "hdr ! 1 = Text ''CC of this iter''"
    using create_log_header by blast
  have r: "read_pre_iter_cc_and_avrg (Some (hdr # [])) k
          = (if k \<le> length ([] :: real list) then Inr (Real (sum_list (drop (length ([] :: real list) - k) [])))
             else Inl TypeError)" for k
    by (rule read_pre_iter_log [OF h(2,3)]) simp_all
  have avrg: "snd (cc_judgement_avrg name (Inr (Real c)) m a (create_log w)) = Inr (c > 0)"
    using r [of 5] r [of 4]
    by (simp add: h(1) cc_judgement_avrg_def write_log_def Let_def)
  have single: "snd (cc_judgement_single name (Inr (Real c)) m a (create_log w)) = Inl TypeError"
    using read_pre_iter_cc_header [OF h(2,3)]
    by (simp add: h(1) cc_judgement_single_def write_log_def Let_def)
  have missing: "snd (cc_judgement_single name (Inr (Real c)) m a None) = Inl FileNotFoundError"
    by (simp add: cc_judgement_single_def read_pre_iter_cc_def write_log_def Let_def)
  show ?thesis using avrg single missing by blast
qed

section \<open>Ranking of the fits and choice of the move\<close>

lemma sort_values_descending_short:
  "length df \<le> 17 \<Longrightarrow>
   sort_values_descending long_argsort key df = rev (sort_key key (rev df))"
  by (simp add: sort_values_descending_def Let_def)

lemma length_sort_values_descending_short:
  "length df \<le> 17 \<Longrightarrow> length (sort_values_descending long_argsort key df) = length df"
  by (simp add: sort_values_descending_short)

lemma find_largest_slopes_short: "length df < 2 \<Longrightarrow> find_largest_slopes long_argsort df = Inl IndexError"
  by (simp add: find_largest_slopes_def Let_def length_sort_values_descending_short)

lemma slopes_loop_single:
  "(\<exists>e. slopes_loop df_pcc [i] [] = Inl e) \<or> (\<exists>f. slopes_loop df_pcc [i] [] = Inr [f])"
  by (simp split: sum.splits prod.splits)

lemma select_move_short:
  "length df_slopes < 2 \<Longrightarrow> select_move long_argsort sel A df_slopes df_pcc = Inl IndexError"
  by (simp add: select_move_def find_largest_slopes_short)

lemma slope_calculation_ok: "df \<noteq> [] \<Longrightarrow> \<exists>sl ic. slope_calculation df = Inr (sl, ic)"
  by (simp add: slope_calculation_def Let_def)

text \<open>
  Claim C10. When the mode range holds one mode (\<open>first_mode = last_mode\<close>) the table of
  fits has one row, \<open>find_largest_slopes\<close> reads a second row and raises IndexError, and
  no move is chosen, whatever the selection strategy: the ranking is called before the
  strategy is looked at. The pass never yields a move; with a positive amplitude and
  samples scored for the mode the exception is IndexError; and the run, which makes at
  least one pass, ends in an exception.
\<close>

theorem single_mode_range_aborts:
  assumes "first_mode p = last_mode p"
  shows "(\<exists>e. chosen_move long_argsort p obs = Inl e)
       \<and> (0 < combined_amplitude p \<and> (\<exists>s \<in> set (cc_table obs). mode s = first_mode p)
            \<longrightarrow> chosen_move long_argsort p obs = Inl IndexError)
       \<and> (0 < num_iterations p + 10 \<longrightarrow> (\<exists>e. run_iterations long_argsort p env = Inl e))"
proof -
  have rng: "[first_mode p..last_mode p] = [first_mode p]"
    using assms by simp
  have no_move: "\<exists>e. chosen_move long_argsort p ob = Inl e" for ob
  proof (cases "generate_deformed_conformation (combined_amplitude p) (first_mode p) (last_mode p)")
    case (Inl e)
    then show ?thesis by (simp add: chosen_move_def)
  next
    case (Inr calls)
    show ?thesis
    proof (cases "slopes_loop (cc_table ob) [first_mode p] []")
      case (Inl e)
      then show ?thesis using Inr by (simp add: chosen_move_def process_data_tsv_def rng)
    next
      case (Inr fs)
      then obtain f where "fs = [f]"
        using slopes_loop_single [of "cc_table ob" "first_mode p"] by auto
      then show ?thesis
        using Inr \<open>generate_deformed_conformation _ _ _ = Inr calls\<close>
        by (simp add: chosen_move_def process_data_tsv_def rng select_move_short)
    qed
  qed
  have index: "chosen_move long_argsort p obs = Inl IndexError"
    if a: "0 < combined_amplitude p" and s: "\<exists>s \<in> set (cc_table obs). mode s = first_mode p"
  proof -
    have g: "\<exists>calls. generate_deformed_conformation (combined_amplitude p) (first_mode p) (last_mode p) = Inr calls"
      using a by (simp add: generate_deformed_conformation_def Let_def)
    have "filter (\<lambda>s. mode s = first_mode p) (cc_table obs) \<noteq> []"
      using s by (simp add: filter_empty_conv)
    then have "sort_key (\<lambda>s. dq s) (filter (\<lambda>s. mode s = first_mode p) (cc_table obs)) \<noteq> []"
      by (metis length_sort length_0_conv)
    then obtain sl ic where
      "slope_calculation (sort_key (\<lambda>s. dq s) (filter (\<lambda>s. mode s = first_mode p) (cc_table obs))) = Inr (sl, ic)"
      using slope_calculation_ok by blast
    then have "slopes_loop (cc_table obs) [first_mode p] [] = Inr [\<lparr>fit_mode = first_mode p, slope = sl, intercept = ic\<rparr>]"
      by simp
    then show ?thesis
      using g by (auto simp: chosen_move_def process_data_tsv_def rng select_move_short)
  qed
  have run: "\<exists>e. run_iterations long_argsort p env = Inl e" if "0 < num_iterations p + 10"
  proof -
    have "[0..<nat (num_iterations p + 10)] = 0 # [1..<nat (num_iterations p + 10)]"
      using that by (simp add: upt_conv_Cons)
    moreover obtain e where "chosen_move long_argsort p (env 0) = Inl e"
      using no_move by blast
    ultimately show ?thesis
      by (simp add: run_iterations_def)
  qed
  show ?thesis using no_move index run by blast
qed


theorem single_mode_range_aborts_witness:
  "chosen_move insertion_argsort
     \<lparr>original_conformation = ''p'', calculate_rmsd_to_reference = ''no'',
      combined_amplitude = 10, first_mode = 7, last_mode = 7,
      mode_selection = ''maxcc'', num_iterations = 3\<rparr>
     \<lparr>cc_table = [\<lparr>mode = 7, dq = -10, cc = 1/10\<rparr>, \<lparr>mode = 7, dq = -5, cc = 3/10\<rparr>,
                  \<lparr>mode = 7, dq = 0, cc = 5/10\<rparr>, \<lparr>mode = 7, dq = 5, cc = 7/10\<rparr>,
                  \<lparr>mode = 7, dq = 10, cc = 9/10\<rparr>],
      cc_call = Inr (Real (1/2))\<rparr>
   = Inl IndexError"
  using single_mode_range_aborts
     [of "\<lparr>original_conformation = ''p'', calculate_rmsd_to_reference = ''no'',
      combined_amplitude = 10, first_mode = 7, last_mode = 7,
      mode_selection = ''maxcc'', num_iterations = 3\<rparr>" insertion_argsort
      "\<lparr>cc_table = [\<lparr>mode = 7, dq = -10, cc = 1/10\<rparr>, \<lparr>mode = 7, dq = -5, cc = 3/10\<rparr>,
                  \<lparr>mode = 7, dq = 0, cc = 5/10\<rparr>, \<lparr>mode = 7, dq = 5, cc = 7/10\<rparr>,
                  \<lparr>mode = 7, dq = 10, cc = 9/10\<rparr>],
      cc_call = Inr (Real (1/2))\<rparr>"]
  by simp










section \<open>The numeric termination criterion\<close>

lemma cc_judgement_avrg_appends:
  "\<exists>avg b. cc_judgement_avrg name (Inr c) m a (Some ws)
     = (Some (ws @ [[Text name, Number c, Number (Real (real_of_int m)), Number a, Number avg]]),
        Inr b)"
  by (simp add: cc_judgement_avrg_def write_log_def Let_def)

lemma whether_to_stop_numeric:
  assumes "cc_call obs = Inr c" "overall_log_file st = Some ws"
  shows "\<exists>avg. whether_to_stop ''numeric'' budget obs st m a
     = Inr (Some (ws @ [[Text (name_str (initial_conformation_iter st)), Number c,
                         Number (Real (real_of_int m)), Number a, Number avg]]),
            \<not> (deformed_times st = budget \<or> feq a (Real 0)))"
proof -
  obtain avg b where
    "cc_judgement_avrg (name_str (initial_conformation_iter st)) (Inr c) m a (Some ws)
     = (Some (ws @ [[Text (name_str (initial_conformation_iter st)), Number c,
                     Number (Real (real_of_int m)), Number a, Number avg]]), Inr b)"
    using cc_judgement_avrg_appends by blast
  then show ?thesis
    using assms by (auto simp: whether_to_stop_def)
qed

lemma main_loop_numeric:
  assumes ok: "\<forall>i \<le> k. chosen_move long_argsort p (env i) = Inr (md i, am i) \<and> cc_call (env i) = Inr (cv i)"
    and stop: "int k = num_iterations p \<or> feq (am k) (Real 0)"
    and before: "\<forall>i < k. \<not> (int i = num_iterations p \<or> feq (am i) (Real 0))"
    and jk: "j \<le> k" "k < N"
    and st: "overall_log_file st = Some ws" "deformed_times st = int j"
  shows "\<exists>rows. main_loop long_argsort ''numeric'' p env [j..<N] st
            = Inr \<lparr>overall_log_file = Some (ws @ rows),
                   initial_conformation_iter =
                     (filename_of_next_iter ^^ (k - j)) (initial_conformation_iter st),
                   deformed_times = int k\<rparr>
         \<and> length rows = k - j + 1
         \<and> (\<forall>i. j \<le> i \<and> i \<le> k \<longrightarrow>
               take 4 (rows ! (i - j))
                 = [Text (name_str ((filename_of_next_iter ^^ (i - j)) (initial_conformation_iter st))),
                    Number (cv i), Number (Real (real_of_int (md i))), Number (am i)])"
  using jk st
proof (induction "k - j" arbitrary: j st ws)
  case 0
  then have jk': "j = k" by simp
  have up: "[j..<N] = j # [Suc j..<N]"
    using "0.prems" by (simp add: upt_conv_Cons)
  obtain avg where w: "whether_to_stop ''numeric'' (num_iterations p) (env k) st (md k) (am k)
     = Inr (Some (ws @ [[Text (name_str (initial_conformation_iter st)), Number (cv k),
                         Number (Real (real_of_int (md k))), Number (am k), Number avg]]),
            \<not> (deformed_times st = num_iterations p \<or> feq (am k) (Real 0)))"
    using whether_to_stop_numeric [of "env k" "cv k" st ws] ok "0.prems" by blast
  let ?rows = "[[Text (name_str (initial_conformation_iter st)), Number (cv k),
                 Number (Real (real_of_int (md k))), Number (am k), Number avg]]"
  have ck: "chosen_move long_argsort p (env k) = Inr (md k, am k)"
    using ok by simp
  have upk: "[k..<N] = k # [Suc k..<N]"
    using up jk' by simp
  have stopk: "deformed_times st = num_iterations p \<or> feq (am k) (Real 0)"
    using stop "0.prems" jk' by simp
  have "main_loop long_argsort ''numeric'' p env [k..<N] st = Inr (st\<lparr>overall_log_file := Some (ws @ ?rows)\<rparr>)"
    unfolding upk using ck w stopk by simp
  then have "main_loop long_argsort ''numeric'' p env [j..<N] st = Inr (st\<lparr>overall_log_file := Some (ws @ ?rows)\<rparr>)"
    using jk' by simp
  moreover have "st\<lparr>overall_log_file := Some (ws @ ?rows)\<rparr>
       = \<lparr>overall_log_file = Some (ws @ ?rows),
          initial_conformation_iter = (filename_of_next_iter ^^ (k - j)) (initial_conformation_iter st),
          deformed_times = int k\<rparr>"
    using "0.prems" jk' by simp
  moreover have "length ?rows = k - j + 1" using jk' by simp
  moreover have "\<forall>i. j \<le> i \<and> i \<le> k \<longrightarrow>
               take 4 (?rows ! (i - j))
                 = [Text (name_str ((filename_of_next_iter ^^ (i - j)) (initial_conformation_iter st))),
                    Number (cv i), Number (Real (real_of_int (md i))), Number (am i)]"
    using jk' by auto
  ultimately show ?case by metis
next
  case (Suc d)
  then have lt: "j < k" by simp
  have up: "[j..<N] = j # [Suc j..<N]"
    using Suc.prems lt by (simp add: upt_conv_Cons)
  obtain avg where w: "whether_to_stop ''numeric'' (num_iterations p) (env j) st (md j) (am j)
     = Inr (Some (ws @ [[Text (name_str (initial_conformation_iter st)), Number (cv j),
                         Number (Real (real_of_int (md j))), Number (am j), Number avg]]),
            \<not> (deformed_times st = num_iterations p \<or> feq (am j) (Real 0)))"
  proof -
    have ccj: "cc_call (env j) = Inr (cv j)" using ok lt by simp
    have stj: "overall_log_file st = Some ws" using Suc.prems by simp
    show ?thesis
      using whether_to_stop_numeric [OF ccj stj, of "num_iterations p" "md j" "am j"] that
      by blast
  qed
  let ?row = "[Text (name_str (initial_conformation_iter st)), Number (cv j),
                 Number (Real (real_of_int (md j))), Number (am j), Number avg]"
  let ?st = "\<lparr>overall_log_file = Some (ws @ [?row]),
              initial_conformation_iter = filename_of_next_iter (initial_conformation_iter st),
              deformed_times = deformed_times st + 1\<rparr>"
  have nostop: "\<not> (deformed_times st = num_iterations p \<or> feq (am j) (Real 0))"
    using before lt Suc.prems by simp
  have cj: "chosen_move long_argsort p (env j) = Inr (md j, am j)"
    using ok lt by simp
  have step: "main_loop long_argsort ''numeric'' p env [j..<N] st = main_loop long_argsort ''numeric'' p env [Suc j..<N] ?st"
    unfolding up using cj w nostop by simp
  have d: "d = k - Suc j" using Suc.hyps(2) by simp
  have "\<exists>rows. main_loop long_argsort ''numeric'' p env [Suc j..<N] ?st
            = Inr \<lparr>overall_log_file = Some ((ws @ [?row]) @ rows),
                   initial_conformation_iter =
                     (filename_of_next_iter ^^ (k - Suc j)) (initial_conformation_iter ?st),
                   deformed_times = int k\<rparr>
         \<and> length rows = k - Suc j + 1
         \<and> (\<forall>i. Suc j \<le> i \<and> i \<le> k \<longrightarrow>
               take 4 (rows ! (i - Suc j))
                 = [Text (name_str ((filename_of_next_iter ^^ (i - Suc j)) (initial_conformation_iter ?st))),
                    Number (cv i), Number (Real (real_of_int (md i))), Number (am i)])"
    by (rule Suc.hyps(1) [OF d]) (use lt Suc.prems in auto)
  then obtain rows where r:
    "main_loop long_argsort ''numeric'' p env [Suc j..<N] ?st
            = Inr \<lparr>overall_log_file = Some ((ws @ [?row]) @ rows),
                   initial_conformation_iter =
                     (filename_of_next_iter ^^ (k - Suc j)) (initial_conformation_iter ?st),
                   deformed_times = int k\<rparr>"
    "length rows = k - Suc j + 1"
    "\<forall>i. Suc j \<le> i \<and> i \<le> k \<longrightarrow>
               take 4 (rows ! (i - Suc j))
                 = [Text (name_str ((filename_of_next_iter ^^ (i - Suc j)) (initial_conformation_iter ?st))),
                    Number (cv i), Number (Real (real_of_int (md i))), Number (am i)]"
    by blast
  have pw: "(filename_of_next_iter ^^ n) (filename_of_next_iter x) = (filename_of_next_iter ^^ Suc n) x" for n x
    by (simp add: funpow_swap1)
  have a: "main_loop long_argsort ''numeric'' p env [j..<N] st
            = Inr \<lparr>overall_log_file = Some (ws @ (?row # rows)),
                   initial_conformation_iter =
                     (filename_of_next_iter ^^ (k - j)) (initial_conformation_iter st),
                   deformed_times = int k\<rparr>"
  proof -
    have "Suc (k - Suc j) = k - j" using lt by simp
    then show ?thesis using step r(1) pw [of "k - Suc j" "initial_conformation_iter st"] by simp
  qed
  have b: "length (?row # rows) = k - j + 1" using r(2) lt by simp
  have c: "take 4 ((?row # rows) ! (i - j))
                 = [Text (name_str ((filename_of_next_iter ^^ (i - j)) (initial_conformation_iter st))),
                    Number (cv i), Number (Real (real_of_int (md i))), Number (am i)]"
    if "j \<le> i \<and> i \<le> k" for i
  proof (cases "i = j")
    case True
    then show ?thesis by simp
  next
    case False
    with that have i: "Suc j \<le> i" "i \<le> k" by simp_all
    then have ij: "i - j = Suc (i - Suc j)" by simp
    have "take 4 (rows ! (i - Suc j))
                 = [Text (name_str ((filename_of_next_iter ^^ (i - Suc j)) (initial_conformation_iter ?st))),
                    Number (cv i), Number (Real (real_of_int (md i))), Number (am i)]"
      using r(3) i by blast
    then show ?thesis
      using pw [of "i - Suc j" "initial_conformation_iter st"] by (simp add: ij)
  qed
  show ?case using a b c by blast
qed


lemma feq_zero: "feq a (Real 0) = (a = Real 0)"
  by (cases a) auto

text \<open>
  Claim C1. A run with the numeric criterion and an iteration budget \<open>num_iterations \<ge> 0\<close>,
  in which the passes up to the budget choose moves \<open>(md i, am i)\<close> and score the
  current conformation \<open>cv i\<close> without an exception, leaves the loop at the first pass
  \<open>k\<close> at which the counter \<open>deformed_times\<close> (equal to \<open>k\<close>) is the budget or the
  amplitude chosen is 0. The counter is \<open>k\<close> at the exit, and the log holds the header
  and one record per pass \<open>0, \<dots>, k\<close>: the record of the stopping pass is written before
  the loop is left.
\<close>

theorem numeric_loop_stops_at_first:
  assumes "0 \<le> num_iterations p"
    and "\<forall>i \<le> nat (num_iterations p).
           chosen_move long_argsort p (env i) = Inr (md i, am i) \<and> cc_call (env i) = Inr (cv i)"
  shows "\<exists>k \<le> nat (num_iterations p).
           (int k = num_iterations p \<or> am k = Real 0)
         \<and> (\<forall>i < k. \<not> (int i = num_iterations p \<or> am i = Real 0))
         \<and> (\<exists>hdr rows.
               create_log (calculate_rmsd_to_reference p) = Some [hdr]
             \<and> run_iterations long_argsort p env
                 = Inr \<lparr>overall_log_file = Some (hdr # rows),
                        initial_conformation_iter =
                          (filename_of_next_iter ^^ k) (ConfName (original_conformation p) None),
                        deformed_times = int k\<rparr>
             \<and> length rows = k + 1
             \<and> (\<forall>i \<le> k. take 4 (rows ! i)
                   = [Text (name_str ((filename_of_next_iter ^^ i)
                              (ConfName (original_conformation p) None))),
                      Number (cv i), Number (Real (real_of_int (md i))), Number (am i)]))"
proof -
  let ?stop = "\<lambda>i. int i = num_iterations p \<or> feq (am i) (Real 0)"
  define k where "k = (LEAST i. ?stop i)"
  have at_budget: "?stop (nat (num_iterations p))"
    using assms(1) by simp
  have stop: "?stop k"
    unfolding k_def by (rule LeastI [of ?stop, OF at_budget])
  have kle: "k \<le> nat (num_iterations p)"
    unfolding k_def by (rule Least_le [of ?stop, OF at_budget])
  have before: "\<forall>i < k. \<not> ?stop i"
    unfolding k_def using not_less_Least by blast
  have ok: "\<forall>i \<le> k. chosen_move long_argsort p (env i) = Inr (md i, am i) \<and> cc_call (env i) = Inr (cv i)"
    using assms(2) kle by auto
  obtain hdr where hdr: "create_log (calculate_rmsd_to_reference p) = Some [hdr]"
    using create_log_header by blast
  let ?st = "\<lparr>overall_log_file = create_log (calculate_rmsd_to_reference p),
              initial_conformation_iter = ConfName (original_conformation p) None,
              deformed_times = 0\<rparr>"
  have kN: "k < nat (num_iterations p + 10)"
    using kle assms(1) by linarith
  have "\<exists>rows. main_loop long_argsort ''numeric'' p env [0..<nat (num_iterations p + 10)] ?st
            = Inr \<lparr>overall_log_file = Some ([hdr] @ rows),
                   initial_conformation_iter =
                     (filename_of_next_iter ^^ (k - 0)) (initial_conformation_iter ?st),
                   deformed_times = int k\<rparr>
         \<and> length rows = k - 0 + 1
         \<and> (\<forall>i. 0 \<le> i \<and> i \<le> k \<longrightarrow>
               take 4 (rows ! (i - 0))
                 = [Text (name_str ((filename_of_next_iter ^^ (i - 0)) (initial_conformation_iter ?st))),
                    Number (cv i), Number (Real (real_of_int (md i))), Number (am i)])"
    by (rule main_loop_numeric [OF ok stop before _ kN]) (simp_all add: hdr)
  then obtain rows where r:
    "run_iterations long_argsort p env
       = Inr \<lparr>overall_log_file = Some (hdr # rows),
              initial_conformation_iter =
                (filename_of_next_iter ^^ k) (ConfName (original_conformation p) None),
              deformed_times = int k\<rparr>"
    "length rows = k + 1"
    "\<forall>i \<le> k. take 4 (rows ! i)
        = [Text (name_str ((filename_of_next_iter ^^ i) (ConfName (original_conformation p) None))),
           Number (cv i), Number (Real (real_of_int (md i))), Number (am i)]"
    by (auto simp: run_iterations_def)
  show ?thesis
    using kle stop before hdr r unfolding feq_zero by blast
qed


lemma chosen_move_example_first:
  "chosen_move long_argsort
     \<lparr>original_conformation = ''p'', calculate_rmsd_to_reference = ''no'',
      combined_amplitude = 10, first_mode = 7, last_mode = 8,
      mode_selection = ''maxcc'', num_iterations = 3\<rparr>
     \<lparr>cc_table = [\<lparr>mode = 7, dq = -10, cc = 1/10\<rparr>, \<lparr>mode = 7, dq = -5, cc = 3/10\<rparr>,
                  \<lparr>mode = 7, dq = 0, cc = 5/10\<rparr>, \<lparr>mode = 7, dq = 5, cc = 7/10\<rparr>,
                  \<lparr>mode = 7, dq = 10, cc = 9/10\<rparr>,
                  \<lparr>mode = 8, dq = -10, cc = 4/10\<rparr>, \<lparr>mode = 8, dq = -5, cc = 9/20\<rparr>,
                  \<lparr>mode = 8, dq = 0, cc = 5/10\<rparr>, \<lparr>mode = 8, dq = 5, cc = 11/20\<rparr>,
                  \<lparr>mode = 8, dq = 10, cc = 6/10\<rparr>],
      cc_call = c\<rparr>
   = Inr (7, Real 10)"
  by (simp add: chosen_move_def generate_deformed_conformation_def process_data_tsv_def
      slope_calculation_def sort_values_descending_def find_largest_slopes_def
      select_move_def Let_def upto_rec1)

lemma chosen_move_example_second:
  "chosen_move long_argsort
     \<lparr>original_conformation = ''p'', calculate_rmsd_to_reference = ''no'',
      combined_amplitude = 10, first_mode = 7, last_mode = 8,
      mode_selection = ''maxcc'', num_iterations = 3\<rparr>
     \<lparr>cc_table = [\<lparr>mode = 7, dq = -10, cc = 5/10\<rparr>, \<lparr>mode = 7, dq = -5, cc = 6/10\<rparr>,
                  \<lparr>mode = 7, dq = 0, cc = 9/10\<rparr>, \<lparr>mode = 7, dq = 5, cc = 6/10\<rparr>,
                  \<lparr>mode = 7, dq = 10, cc = 5/10\<rparr>,
                  \<lparr>mode = 8, dq = -10, cc = 6/10\<rparr>, \<lparr>mode = 8, dq = -5, cc = 7/10\<rparr>,
                  \<lparr>mode = 8, dq = 0, cc = 9/10\<rparr>, \<lparr>mode = 8, dq = 5, cc = 8/10\<rparr>,
                  \<lparr>mode = 8, dq = 10, cc = 7/10\<rparr>],
      cc_call = Inr (Real (9/10))\<rparr>
   = Inr (7, Real 0)"
  by (simp add: chosen_move_def generate_deformed_conformation_def process_data_tsv_def
      slope_calculation_def sort_values_descending_def find_largest_slopes_def
      select_move_def Let_def upto_rec1)


theorem numeric_loop_stops_at_first_witness:
  "\<exists>hdr rows.
     run_iterations insertion_argsort
       \<lparr>original_conformation = ''p'', calculate_rmsd_to_reference = ''no'',
        combined_amplitude = 10, first_mode = 7, last_mode = 8,
        mode_selection = ''maxcc'', num_iterations = 3\<rparr>
       (\<lambda>i. if i = 0
            then \<lparr>cc_table = [\<lparr>mode = 7, dq = -10, cc = 1/10\<rparr>, \<lparr>mode = 7, dq = -5, cc = 3/10\<rparr>,
                  \<lparr>mode = 7, dq = 0, cc = 5/10\<rparr>, \<lparr>mode = 7, dq = 5, cc = 7/10\<rparr>,
                  \<lparr>mode = 7, dq = 10, cc = 9/10\<rparr>,
                  \<lparr>mode = 8, dq = -10, cc = 4/10\<rparr>, \<lparr>mode = 8, dq = -5, cc = 9/20\<rparr>,
                  \<lparr>mode = 8, dq = 0, cc = 5/10\<rparr>, \<lparr>mode = 8, dq = 5, cc = 11/20\<rparr>,
                  \<lparr>mode = 8, dq = 10, cc = 6/10\<rparr>],
                 cc_call = Inr (Real (1/2))\<rparr>
            else \<lparr>cc_table = [\<lparr>mode = 7, dq = -10, cc = 5/10\<rparr>, \<lparr>mode = 7, dq = -5, cc = 6/10\<rparr>,
                  \<lparr>mode = 7, dq = 0, cc = 9/10\<rparr>, \<lparr>mode = 7, dq = 5, cc = 6/10\<rparr>,
                  \<lparr>mode = 7, dq = 10, cc = 5/10\<rparr>,
                  \<lparr>mode = 8, dq = -10, cc = 6/10\<rparr>, \<lparr>mode = 8, dq = -5, cc = 7/10\<rparr>,
                  \<lparr>mode = 8, dq = 0, cc = 9/10\<rparr>, \<lparr>mode = 8, dq = 5, cc = 8/10\<rparr>,
                  \<lparr>mode = 8, dq = 10, cc = 7/10\<rparr>],
                 cc_call = Inr (Real (9/10))\<rparr>)
     = Inr \<lparr>overall_log_file = Some (hdr # rows),
            initial_conformation_iter = ConfName ''p'' (Some 1),
            deformed_times = 1\<rparr>
   \<and> length rows = 2
   \<and> take 4 (rows ! 1) = [Text ''p#s1'', Number (Real (9/10)), Number (Real 7), Number (Real 0)]"
proof -
  let ?p = "\<lparr>original_conformation = ''p'', calculate_rmsd_to_reference = ''no'',
        combined_amplitude = 10 :: real, first_mode = 7 :: int, last_mode = 8 :: int,
        mode_selection = ''maxcc'', num_iterations = 3 :: int\<rparr>"
  let ?o0 = "\<lparr>cc_table = [\<lparr>mode = 7, dq = -10, cc = 1/10\<rparr>, \<lparr>mode = 7, dq = -5, cc = 3/10\<rparr>,
                  \<lparr>mode = 7, dq = 0, cc = 5/10\<rparr>, \<lparr>mode = 7, dq = 5, cc = 7/10\<rparr>,
                  \<lparr>mode = 7, dq = 10, cc = 9/10\<rparr>,
                  \<lparr>mode = 8, dq = -10, cc = 4/10\<rparr>, \<lparr>mode = 8, dq = -5, cc = 9/20\<rparr>,
                  \<lparr>mode = 8, dq = 0, cc = 5/10\<rparr>, \<lparr>mode = 8, dq = 5, cc = 11/20\<rparr>,
                  \<lparr>mode = 8, dq = 10, cc = 6/10\<rparr>],
                 cc_call = Inr (Real (1/2)) :: pyerr + pyfloat\<rparr>"
  let ?o1 = "\<lparr>cc_table = [\<lparr>mode = 7, dq = -10, cc = 5/10\<rparr>, \<lparr>mode = 7, dq = -5, cc = 6/10\<rparr>,
                  \<lparr>mode = 7, dq = 0, cc = 9/10\<rparr>, \<lparr>mode = 7, dq = 5, cc = 6/10\<rparr>,
                  \<lparr>mode = 7, dq = 10, cc = 5/10\<rparr>,
                  \<lparr>mode = 8, dq = -10, cc = 6/10\<rparr>, \<lparr>mode = 8, dq = -5, cc = 7/10\<rparr>,
                  \<lparr>mode = 8, dq = 0, cc = 9/10\<rparr>, \<lparr>mode = 8, dq = 5, cc = 8/10\<rparr>,
                  \<lparr>mode = 8, dq = 10, cc = 7/10\<rparr>],
                 cc_call = Inr (Real (9/10)) :: pyerr + pyfloat\<rparr>"
  let ?env = "\<lambda>i :: nat. if i = 0 then ?o0 else ?o1"
  let ?md = "\<lambda>i :: nat. 7 :: int"
  let ?am = "\<lambda>i :: nat. if i = 0 then Real 10 else Real 0"
  let ?cv = "\<lambda>i :: nat. if i = 0 then Real (1/2) else Real (9/10)"
  have budget: "0 \<le> num_iterations ?p" by simp
  have ok: "\<forall>i \<le> nat (num_iterations ?p).
           chosen_move insertion_argsort ?p (?env i) = Inr (?md i, ?am i) \<and> cc_call (?env i) = Inr (?cv i)"
    using chosen_move_example_first chosen_move_example_second by simp
  from numeric_loop_stops_at_first [OF budget ok]
  obtain k hdr rows where k: "k \<le> nat (num_iterations ?p)"
    "int k = num_iterations ?p \<or> ?am k = Real 0"
    "\<forall>i < k. \<not> (int i = num_iterations ?p \<or> ?am i = Real 0)"
    and r: "run_iterations insertion_argsort ?p ?env
                 = Inr \<lparr>overall_log_file = Some (hdr # rows),
                        initial_conformation_iter =
                          (filename_of_next_iter ^^ k) (ConfName (original_conformation ?p) None),
                        deformed_times = int k\<rparr>"
    "length rows = k + 1"
    "\<forall>i \<le> k. take 4 (rows ! i)
                   = [Text (name_str ((filename_of_next_iter ^^ i)
                              (ConfName (original_conformation ?p) None))),
                      Number (?cv i), Number (Real (real_of_int (?md i))), Number (?am i)]"
    by blast
  have "k \<noteq> 0" using k(2) by (auto split: if_splits)
  moreover have "\<not> 1 < k"
  proof
    assume "1 < k"
    with k(3) have "\<not> (int 1 = num_iterations ?p \<or> ?am 1 = Real 0)" by blast
    then show False by simp
  qed
  ultimately have k1: "k = 1" by simp
  have "take 4 (rows ! 1) = [Text (name_str ((filename_of_next_iter ^^ 1)
                              (ConfName (original_conformation ?p) None))),
                      Number (?cv 1), Number (Real (real_of_int (?md 1))), Number (?am 1)]"
    using r(3) k1 by blast
  then have row: "take 4 (rows ! 1) = [Text ''p#s1'', Number (Real (9/10)), Number (Real 7), Number (Real 0)]"
    by simp
  show ?thesis
    using r(1,2) row unfolding k1 by simp
qed

section \<open>The trajectory analysis\<close>

lemma exp_one_bounds: "5 / 2 \<le> exp (1::real)" "exp (1::real) \<le> 3"
proof -
  have "1 + (1::real) + 1\<^sup>2 / 2 \<le> exp 1"
    by (rule exp_lower_Taylor_quadratic) simp
  then show "5 / 2 \<le> exp (1::real)" by simp
  show "exp (1::real) \<le> 3" by (rule exp_le)
qed

lemma exp_two_less: "exp (2::real) < 20"
proof -
  have "exp (2::real) = exp 1 * exp 1"
    by (simp add: exp_add [symmetric])
  also have "\<dots> \<le> 3 * 3"
    by (rule mult_mono) (use exp_one_bounds in auto)
  finally show ?thesis by simp
qed

lemma exp_three_less: "exp (3::real) < 100 / 3"
proof -
  have "exp (3::real) = exp 1 * exp 1 * exp 1"
    by (simp add: exp_add [symmetric])
  also have "\<dots> \<le> 3 * 3 * 3"
    by (intro mult_mono) (use exp_one_bounds in auto)
  finally show ?thesis by simp
qed

lemma exp_four_greater: "100 / 3 < exp (4::real)"
proof -
  have "(5 / 2) * (5 / 2) * (5 / 2) * (5 / 2) \<le> exp 1 * exp 1 * exp 1 * exp (1::real)"
    by (intro mult_mono) (use exp_one_bounds in auto)
  also have "\<dots> = exp (4::real)"
    by (simp add: exp_add [symmetric])
  finally show ?thesis by simp
qed

lemma ln_three_hundredths: "- 4 < ln (3 / 100 :: real)" "ln (3 / 100 :: real) < - 3"
proof -
  have eq: "ln (3 / 100 :: real) = - ln (100 / 3)"
    by (simp add: ln_div)
  have "ln (100 / 3 :: real) < ln (exp 4)"
    using exp_four_greater by (subst ln_less_cancel_iff) simp_all
  then have "ln (100 / 3 :: real) < 4" by simp
  moreover have "ln (exp 3) < ln (100 / 3 :: real)"
    using exp_three_less by (subst ln_less_cancel_iff) simp_all
  then have "3 < ln (100 / 3 :: real)" by simp
  ultimately show "- 4 < ln (3 / 100 :: real)" "ln (3 / 100 :: real) < - 3"
    using eq by simp_all
qed

lemma ln_five_hundredths: "ln (5 / 100 :: real) < - 2"
proof -
  have eq: "ln (5 / 100 :: real) = - ln 20"
    by (simp add: ln_div)
  have "ln (exp 2) < ln (20 :: real)"
    using exp_two_less by (subst ln_less_cancel_iff) simp_all
  then have "2 < ln (20 :: real)" by simp
  then show ?thesis using eq by simp
qed

lemma best_step_unit_decay: "\<lceil>ln (3 / 100 :: real) / (- 1) + 1\<rceil> = 5"
proof -
  have "4 < - ln (3 / 100 :: real) + 1" "- ln (3 / 100 :: real) + 1 \<le> 5"
    using ln_three_hundredths by simp_all
  then have "\<lceil>- ln (3 / 100 :: real) + 1\<rceil> = 5"
    by (simp add: ceiling_eq_iff)
  then show ?thesis by simp
qed


lemma decay_step_positive:
  assumes "b < 0" "0 < p" "p < 1"
  shows "\<exists>u. decay_step p b = Inr u \<and> u = \<lceil>ln p / b + 1\<rceil> \<and> 0 < u"
proof -
  have "ln p < 0" using assms by (intro ln_less_zero)
  then have "0 < ln p / b" using assms(1) by (simp add: divide_neg_neg)
  then have "0 < ln p / b + 1" by simp
  then have "0 < \<lceil>ln p / b + 1\<rceil>" by (subst less_ceiling_iff) simp
  then show ?thesis using assms(1) by (simp add: decay_step_def)
qed

lemma decay_loop_step_gen:
  assumes "decay_step p b = Inr u" "0 < u" "0 \<le> m"
  shows "decay_loop b m (p # ps) n w
       = decay_loop b m ps (if p = 3 / 100 then Some (min u m) else n)
           (w @ (if m < u then [(p, u, m)] else []))"
  using assms by (simp add: Let_def min_def)

lemma decay_loop_step:
  assumes "b < 0" "0 \<le> m" "0 < p" "p < 1"
  shows "decay_loop b m (p # ps) n w
       = decay_loop b m ps (if p = 3 / 100 then Some (min \<lceil>ln p / b + 1\<rceil> m) else n)
           (w @ map (\<lambda>q. (q, \<lceil>ln q / b + 1\<rceil>, m)) (filter (\<lambda>q. m < \<lceil>ln q / b + 1\<rceil>) [p]))"
proof -
  obtain u where u: "decay_step p b = Inr u" "u = \<lceil>ln p / b + 1\<rceil>" "0 < u"
    using decay_step_positive [OF assms(1,3,4)] by blast
  have e: "map (\<lambda>q. (q, \<lceil>ln q / b + 1\<rceil>, m)) (filter (\<lambda>q. m < \<lceil>ln q / b + 1\<rceil>) [p])
      = (if m < u then [(p, u, m)] else [])"
    unfolding u(2) by simp
  have "decay_loop b m (p # ps) n w
       = decay_loop b m ps (if p = 3 / 100 then Some (min u m) else n)
           (w @ map (\<lambda>q. (q, \<lceil>ln q / b + 1\<rceil>, m)) (filter (\<lambda>q. m < \<lceil>ln q / b + 1\<rceil>) [p]))"
    unfolding e by (rule decay_loop_step_gen [OF u(1,3) assms(2)])
  then show ?thesis
    unfolding u(2) .
qed

text \<open>
  Claim C7, amended. For a fitted rate \<open>b < 0\<close> (a decay) and a log whose last step is
  \<open>m \<ge> 0\<close>, the analysis computes for each fraction \<open>p\<close> of \<open>0.05, 0.03, 0.01\<close> the
  step \<open>ceil(ln p / b + 1)\<close>, replaces it by \<open>m\<close> with a warning when it exceeds \<open>m\<close>,
  and returns the step of the fraction \<open>0.03\<close>, clamped in that way. With \<open>a = 1\<close> and
  \<open>b = -1\<close> the step returned is 5 when the log reaches step 5.
\<close>

theorem decay_best_step:
  assumes "b < 0" and "0 \<le> m"
  shows "save_time_series_plot (FitParams a b) m
           = Inr (min \<lceil>ln (3 / 100) / b + 1\<rceil> m,
                  map (\<lambda>p. (p, \<lceil>ln p / b + 1\<rceil>, m))
                    (filter (\<lambda>p. m < \<lceil>ln p / b + 1\<rceil>) [5 / 100, 3 / 100, 1 / 100]))
       \<and> (5 \<le> m \<longrightarrow> (\<exists>w. save_time_series_plot (FitParams 1 (- 1)) m = Inr (5, w)))"
proof -
  have gen: "save_time_series_plot (FitParams a' b') m
           = Inr (min \<lceil>ln (3 / 100) / b' + 1\<rceil> m,
                  map (\<lambda>p. (p, \<lceil>ln p / b' + 1\<rceil>, m))
                    (filter (\<lambda>p. m < \<lceil>ln p / b' + 1\<rceil>) [5 / 100, 3 / 100, 1 / 100]))"
    if "b' < 0" for a' b'
  proof -
    have s1: "decay_loop b' m [5 / 100, 3 / 100, 1 / 100] None []
        = decay_loop b' m [3 / 100, 1 / 100] None
            (map (\<lambda>p. (p, \<lceil>ln p / b' + 1\<rceil>, m)) (filter (\<lambda>p. m < \<lceil>ln p / b' + 1\<rceil>) [5 / 100]))"
      by (subst decay_loop_step [OF that assms(2)]) simp_all
    have s2: "decay_loop b' m [3 / 100, 1 / 100] None w
        = decay_loop b' m [1 / 100] (Some (min \<lceil>ln (3 / 100) / b' + 1\<rceil> m))
            (w @ map (\<lambda>p. (p, \<lceil>ln p / b' + 1\<rceil>, m)) (filter (\<lambda>p. m < \<lceil>ln p / b' + 1\<rceil>) [3 / 100]))" for w
      by (subst decay_loop_step [OF that assms(2)]) simp_all
    have s3: "decay_loop b' m [1 / 100] n w
        = Inr (n, w @ map (\<lambda>p. (p, \<lceil>ln p / b' + 1\<rceil>, m)) (filter (\<lambda>p. m < \<lceil>ln p / b' + 1\<rceil>) [1 / 100]))" for n w
      by (subst decay_loop_step [OF that assms(2)]) simp_all
    have "decay_loop b' m [5 / 100, 3 / 100, 1 / 100] None []
        = Inr (Some (min \<lceil>ln (3 / 100) / b' + 1\<rceil> m),
               map (\<lambda>p. (p, \<lceil>ln p / b' + 1\<rceil>, m))
                 (filter (\<lambda>p. m < \<lceil>ln p / b' + 1\<rceil>) [5 / 100, 3 / 100, 1 / 100]))"
      unfolding s1 s2 s3 by (simp del: ceiling_add_one)
    then show ?thesis by (simp add: save_time_series_plot_def)
  qed
  have "\<exists>w. save_time_series_plot (FitParams 1 (- 1)) m = Inr (5, w)" if "5 \<le> m"
  proof -
    have "min \<lceil>ln (3 / 100 :: real) / (- 1) + 1\<rceil> m = 5"
      unfolding best_step_unit_decay using that by simp
    then show ?thesis using gen [of "- 1" 1] by simp
  qed
  then show ?thesis using gen [OF assms(1)] by blast
qed

theorem decay_best_step_witness:
  "(\<exists>w. save_time_series_plot (FitParams 1 (- 1)) 10 = Inr (5, w))
   \<and> (\<exists>w. save_time_series_plot (FitParams 1 (- 1)) 3 = Inr (3, w))"
proof -
  have b: "(- 1 :: real) < 0" and m10: "(0 :: int) \<le> 10" and m3: "(0 :: int) \<le> 3" by simp_all
  have "5 \<le> (10::int) \<longrightarrow> (\<exists>w. save_time_series_plot (FitParams 1 (- 1)) 10 = Inr (5, w))"
    using decay_best_step [OF b m10, of 1] by (rule conjunct2)
  then have first: "\<exists>w. save_time_series_plot (FitParams 1 (- 1)) 10 = Inr (5, w)" by simp
  have "save_time_series_plot (FitParams 1 (- 1)) 3
           = Inr (min \<lceil>ln (3 / 100 :: real) / (- 1) + 1\<rceil> 3,
                  map (\<lambda>p. (p, \<lceil>ln p / (- 1) + 1\<rceil>, 3))
                    (filter (\<lambda>p. 3 < \<lceil>ln p / (- 1) + 1\<rceil>) [5 / 100, 3 / 100, 1 / 100 :: real]))"
    using decay_best_step [OF b m3, of 1] by (rule conjunct1)
  then have "\<exists>w. save_time_series_plot (FitParams 1 (- 1)) 3 = Inr (3, w)"
    unfolding best_step_unit_decay by simp
  with first show ?thesis by blast
qed

text \<open>
  Claim C7 as stated, for every fitted rate, fails for a growth rate: with \<open>b = 1\<close> the
  step of the fraction \<open>0.05\<close> is negative, it is not a step of the log, and the lookup
  \<open>A_RMSD.loc[u, ...]\<close> raises KeyError before any step is returned.
\<close>

theorem decay_growth_counterexample:
  "save_time_series_plot (FitParams 1 1) 10 = Inl KeyError"
proof -
  define u where "u = \<lceil>ln (5 / 100 :: real) / 1 + 1\<rceil>"
  have "ln (5 / 100 :: real) / 1 + 1 \<le> real_of_int (- 1)"
    using ln_five_hundredths by simp
  then have neg: "u \<le> - 1"
    unfolding u_def by (subst ceiling_le_iff)
  have step: "decay_step (5 / 100) 1 = Inr u"
    by (simp add: decay_step_def u_def)
  have "decay_loop 1 10 [5 / 100, 3 / 100, 1 / 100] None [] = Inl KeyError"
    using step neg by (simp add: Let_def)
  then show ?thesis
    by (simp add: save_time_series_plot_def)
qed


lemma scoring_fit_error: "scoring_conformations (FitError e) m = Inl e"
  by (simp add: scoring_conformations_def save_time_series_plot_def)

lemma example_run_completes:
  "\<exists>st. run_iterations long_argsort
       \<lparr>original_conformation = ''p'', calculate_rmsd_to_reference = ''no'',
        combined_amplitude = 10, first_mode = 7, last_mode = 8,
        mode_selection = ''maxcc'', num_iterations = 3\<rparr>
       (\<lambda>i. \<lparr>cc_table = [\<lparr>mode = 7, dq = -10, cc = 1/10\<rparr>, \<lparr>mode = 7, dq = -5, cc = 3/10\<rparr>,
                  \<lparr>mode = 7, dq = 0, cc = 5/10\<rparr>, \<lparr>mode = 7, dq = 5, cc = 7/10\<rparr>,
                  \<lparr>mode = 7, dq = 10, cc = 9/10\<rparr>,
                  \<lparr>mode = 8, dq = -10, cc = 4/10\<rparr>, \<lparr>mode = 8, dq = -5, cc = 9/20\<rparr>,
                  \<lparr>mode = 8, dq = 0, cc = 5/10\<rparr>, \<lparr>mode = 8, dq = 5, cc = 11/20\<rparr>,
                  \<lparr>mode = 8, dq = 10, cc = 6/10\<rparr>],
                 cc_call = Inr (Real (if i = 0 then 1/2 else if i = 1 then 3/5
                                      else if i = 2 then 2/5 else 7/10))\<rparr>)
     = Inr st"
proof -
  let ?p = "\<lparr>original_conformation = ''p'', calculate_rmsd_to_reference = ''no'',
        combined_amplitude = 10 :: real, first_mode = 7 :: int, last_mode = 8 :: int,
        mode_selection = ''maxcc'', num_iterations = 3 :: int\<rparr>"
  let ?env = "\<lambda>i :: nat. \<lparr>cc_table = [\<lparr>mode = 7, dq = -10, cc = 1/10\<rparr>, \<lparr>mode = 7, dq = -5, cc = 3/10\<rparr>,
                  \<lparr>mode = 7, dq = 0, cc = 5/10\<rparr>, \<lparr>mode = 7, dq = 5, cc = 7/10\<rparr>,
                  \<lparr>mode = 7, dq = 10, cc = 9/10\<rparr>,
                  \<lparr>mode = 8, dq = -10, cc = 4/10\<rparr>, \<lparr>mode = 8, dq = -5, cc = 9/20\<rparr>,
                  \<lparr>mode = 8, dq = 0, cc = 5/10\<rparr>, \<lparr>mode = 8, dq = 5, cc = 11/20\<rparr>,
                  \<lparr>mode = 8, dq = 10, cc = 6/10\<rparr>],
                 cc_call = (Inr (Real (if i = 0 then 1/2 else if i = 1 then 3/5
                                      else if i = 2 then 2/5 else 7/10)) :: pyerr + pyfloat)\<rparr>"
  let ?cv = "\<lambda>i :: nat. Real (if i = 0 then 1/2 else if i = 1 then 3/5
                                      else if i = 2 then 2/5 else 7/10)"
  let ?st = "\<lparr>overall_log_file = create_log (calculate_rmsd_to_reference ?p),
              initial_conformation_iter = ConfName (original_conformation ?p) None,
              deformed_times = 0\<rparr>"
  obtain hdr where hdr: "create_log ''no'' = Some [hdr]"
    using create_log_header by blast
  have ok: "\<forall>i \<le> 3. chosen_move long_argsort ?p (?env i) = Inr ((\<lambda>i. 7) i, (\<lambda>i. Real 10) i)
                \<and> cc_call (?env i) = Inr (?cv i)"
    using chosen_move_example_first by simp
  have stop: "int 3 = num_iterations ?p \<or> feq ((\<lambda>i. Real 10) (3::nat)) (Real 0)"
    by simp
  have before: "\<forall>i < 3. \<not> (int i = num_iterations ?p \<or> feq ((\<lambda>i. Real 10) i) (Real 0))"
    by simp
  have "\<exists>rows. main_loop long_argsort ''numeric'' ?p ?env [0..<nat (num_iterations ?p + 10)] ?st
            = Inr \<lparr>overall_log_file = Some ([hdr] @ rows),
                   initial_conformation_iter =
                     (filename_of_next_iter ^^ (3 - 0)) (initial_conformation_iter ?st),
                   deformed_times = int 3\<rparr>
         \<and> length rows = 3 - 0 + 1
         \<and> (\<forall>i. 0 \<le> i \<and> i \<le> 3 \<longrightarrow>
               take 4 (rows ! (i - 0))
                 = [Text (name_str ((filename_of_next_iter ^^ (i - 0)) (initial_conformation_iter ?st))),
                    Number (?cv i), Number (Real (real_of_int ((\<lambda>i. 7) i))), Number ((\<lambda>i. Real 10) i)])"
    by (rule main_loop_numeric [OF ok stop before]) (simp_all add: hdr)
  then show ?thesis
    unfolding run_iterations_def by blast
qed

text \<open>
  Claim C8, amended. When the exponential fit fails, its exception leaves
  \<open>save_time_series_plot\<close> and \<open>scoring_conformations\<close> and ends the program: the run
  never completes, and when the iteration loop had completed, the run ends with the
  exception of the fit. No best step is returned.
\<close>

theorem fit_failure_aborts:
  "(\<exists>e'. main long_argsort p env (FitError e) = Inl e')
   \<and> (\<forall>st. run_iterations long_argsort p env = Inr st \<longrightarrow> main long_argsort p env (FitError e) = Inl e)"
  by (cases "run_iterations long_argsort p env") (simp_all add: main_def scoring_fit_error)

theorem fit_failure_aborts_witness:
  "(\<exists>e'. main insertion_argsort
       \<lparr>original_conformation = ''p'', calculate_rmsd_to_reference = ''no'',
        combined_amplitude = 10, first_mode = 7, last_mode = 8,
        mode_selection = ''maxcc'', num_iterations = 3\<rparr>
       (\<lambda>i. \<lparr>cc_table = [\<lparr>mode = 7, dq = -10, cc = 1/10\<rparr>, \<lparr>mode = 7, dq = -5, cc = 3/10\<rparr>,
                  \<lparr>mode = 7, dq = 0, cc = 5/10\<rparr>, \<lparr>mode = 7, dq = 5, cc = 7/10\<rparr>,
                  \<lparr>mode = 7, dq = 10, cc = 9/10\<rparr>,
                  \<lparr>mode = 8, dq = -10, cc = 4/10\<rparr>, \<lparr>mode = 8, dq = -5, cc = 9/20\<rparr>,
                  \<lparr>mode = 8, dq = 0, cc = 5/10\<rparr>, \<lparr>mode = 8, dq = 5, cc = 11/20\<rparr>,
                  \<lparr>mode = 8, dq = 10, cc = 6/10\<rparr>],
                 cc_call = Inr (Real (if i = 0 then 1/2 else if i = 1 then 3/5
                                      else if i = 2 then 2/5 else 7/10))\<rparr>)
       (FitError RuntimeError) = Inl e')
   \<and> main insertion_argsort
       \<lparr>original_conformation = ''p'', calculate_rmsd_to_reference = ''no'',
        combined_amplitude = 10, first_mode = 7, last_mode = 8,
        mode_selection = ''maxcc'', num_iterations = 3\<rparr>
       (\<lambda>i. \<lparr>cc_table = [\<lparr>mode = 7, dq = -10, cc = 1/10\<rparr>, \<lparr>mode = 7, dq = -5, cc = 3/10\<rparr>,
                  \<lparr>mode = 7, dq = 0, cc = 5/10\<rparr>, \<lparr>mode = 7, dq = 5, cc = 7/10\<rparr>,
                  \<lparr>mode = 7, dq = 10, cc = 9/10\<rparr>,
                  \<lparr>mode = 8, dq = -10, cc = 4/10\<rparr>, \<lparr>mode = 8, dq = -5, cc = 9/20\<rparr>,
                  \<lparr>mode = 8, dq = 0, cc = 5/10\<rparr>, \<lparr>mode = 8, dq = 5, cc = 11/20\<rparr>,
                  \<lparr>mode = 8, dq = 10, cc = 6/10\<rparr>],
                 cc_call = Inr (Real (if i = 0 then 1/2 else if i = 1 then 3/5
                                      else if i = 2 then 2/5 else 7/10))\<rparr>)
       (FitError RuntimeError) = Inl RuntimeError"
  using example_run_completes fit_failure_aborts by blast

text \<open>
  Claim C8 as stated fails: in a run of four passes that leaves the loop at the budget,
  a fit that does not converge (RuntimeError) ends the run with that exception.
\<close>

theorem fit_failure_counterexample:
  "main insertion_argsort
       \<lparr>original_conformation = ''p'', calculate_rmsd_to_reference = ''no'',
        combined_amplitude = 10, first_mode = 7, last_mode = 8,
        mode_selection = ''maxcc'', num_iterations = 3\<rparr>
       (\<lambda>i. \<lparr>cc_table = [\<lparr>mode = 7, dq = -10, cc = 1/10\<rparr>, \<lparr>mode = 7, dq = -5, cc = 3/10\<rparr>,
                  \<lparr>mode = 7, dq = 0, cc = 5/10\<rparr>, \<lparr>mode = 7, dq = 5, cc = 7/10\<rparr>,
                  \<lparr>mode = 7, dq = 10, cc = 9/10\<rparr>,
                  \<lparr>mode = 8, dq = -10, cc = 4/10\<rparr>, \<lparr>mode = 8, dq = -5, cc = 9/20\<rparr>,
                  \<lparr>mode = 8, dq = 0, cc = 5/10\<rparr>, \<lparr>mode = 8, dq = 5, cc = 11/20\<rparr>,
                  \<lparr>mode = 8, dq = 10, cc = 6/10\<rparr>],
                 cc_call = Inr (Real (if i = 0 then 1/2 else if i = 1 then 3/5
                                      else if i = 2 then 2/5 else 7/10))\<rparr>)
       (FitError RuntimeError) = Inl RuntimeError"
proof -
  obtain st where "run_iterations insertion_argsort
       \<lparr>original_conformation = ''p'', calculate_rmsd_to_reference = ''no'',
        combined_amplitude = 10, first_mode = 7, last_mode = 8,
        mode_selection = ''maxcc'', num_iterations = 3\<rparr>
       (\<lambda>i. \<lparr>cc_table = [\<lparr>mode = 7, dq = -10, cc = 1/10\<rparr>, \<lparr>mode = 7, dq = -5, cc = 3/10\<rparr>,
                  \<lparr>mode = 7, dq = 0, cc = 5/10\<rparr>, \<lparr>mode = 7, dq = 5, cc = 7/10\<rparr>,
                  \<lparr>mode = 7, dq = 10, cc = 9/10\<rparr>,
                  \<lparr>mode = 8, dq = -10, cc = 4/10\<rparr>, \<lparr>mode = 8, dq = -5, cc = 9/20\<rparr>,
                  \<lparr>mode = 8, dq = 0, cc = 5/10\<rparr>, \<lparr>mode = 8, dq = 5, cc = 11/20\<rparr>,
                  \<lparr>mode = 8, dq = 10, cc = 6/10\<rparr>],
                 cc_call = Inr (Real (if i = 0 then 1/2 else if i = 1 then 3/5
                                      else if i = 2 then 2/5 else 7/10))\<rparr>)
     = Inr st"
    using example_run_completes by blast
  then show ?thesis
    by (simp only: main_def scoring_fit_error sum.case)
qed

section \<open>The similarity of two images\<close>

lemma sum_list_affine:
  "sum_list (map (\<lambda>v. a * v + b) zs) = a * sum_list zs + b * real (length zs)"
  by (induction zs) (simp_all add: algebra_simps)

lemma sum_list_scale: "sum_list (map (\<lambda>v. k * f v) zs) = k * sum_list (map f zs)" for k :: real
  by (induction zs) (simp_all add: algebra_simps)

lemma sum_squares_nonneg: "0 \<le> sum_list (map (\<lambda>v. (v - m) * (v - m)) zs)" for m :: real
  by (induction zs) simp_all

lemma sum_squares_pos:
  "v \<in> set zs \<Longrightarrow> v \<noteq> m \<Longrightarrow> 0 < sum_list (map (\<lambda>v. (v - m) * (v - m)) zs)" for m :: real
proof (induction zs)
  case Nil
  then show ?case by simp
next
  case (Cons z zs)
  show ?case
  proof (cases "z = m")
    case True
    with Cons show ?thesis by auto
  next
    case False
    then have "0 < (z - m) * (z - m)" by (auto simp: zero_less_mult_iff)
    then show ?thesis
      using sum_squares_nonneg [of m zs] by simp
  qed
qed

lemma not_constant_off_mean:
  assumes "\<exists>v \<in> set zs. v \<noteq> hd zs"
  shows "\<exists>v \<in> set zs. v \<noteq> m"
proof (rule ccontr)
  assume "\<not> (\<exists>v \<in> set zs. v \<noteq> m)"
  then have all: "\<forall>v \<in> set zs. v = m" by blast
  from assms obtain v where v: "v \<in> set zs" "v \<noteq> hd zs" by blast
  then have "zs \<noteq> []" by auto
  then have "hd zs \<in> set zs" by simp
  then have "hd zs = m" using all by blast
  moreover have "v = m" using all v(1) by blast
  ultimately show False using v(2) by simp
qed

lemma pearson_statistic_affine:
  assumes nc: "\<exists>v \<in> set zs. v \<noteq> hd zs" and a: "a \<noteq> 0" and c: "c \<noteq> 0"
  shows "pearson_statistic (map (\<lambda>v. a * v + b) zs) (map (\<lambda>v. c * v + d) zs) = sgn a * sgn c"
proof -
  from nc have ne: "zs \<noteq> []" by auto
  then have n: "0 < real (length zs)" by simp
  define zbar where "zbar = sum_list zs / real (length zs)"
  define S where "S = sum_list (map (\<lambda>v. (v - zbar) * (v - zbar)) zs)"
  have S: "0 < S"
    unfolding S_def using not_constant_off_mean [OF nc, of zbar] sum_squares_pos by blast
  have mean: "sum_list (map (\<lambda>v. k * v + l) zs) / real (length zs) = k * zbar + l" for k l
    unfolding sum_list_affine zbar_def using n by (simp add: field_simps)
  have centred: "map (\<lambda>v. v - (k * zbar + l)) (map (\<lambda>v. k * v + l) zs) = map (\<lambda>v. k * (v - zbar)) zs" for k l
    by (simp add: algebra_simps)
  have norm: "sqrt (sum_list (map (\<lambda>v. v * v) (map (\<lambda>v. k * (v - zbar)) zs))) = \<bar>k\<bar> * sqrt S" for k
  proof -
    have "sum_list (map (\<lambda>v. v * v) (map (\<lambda>v. k * (v - zbar)) zs))
        = sum_list (map (\<lambda>v. (k * k) * ((v - zbar) * (v - zbar))) zs)"
      by (simp add: comp_def algebra_simps)
    also have "\<dots> = (k * k) * S"
      unfolding S_def by (rule sum_list_scale)
    finally show ?thesis
      by (simp add: real_sqrt_mult)
  qed
  have "sum_list (map2 (\<lambda>x y. x / (\<bar>a\<bar> * sqrt S) * (y / (\<bar>c\<bar> * sqrt S)))
            (map (\<lambda>v. a * (v - zbar)) zs) (map (\<lambda>v. c * (v - zbar)) zs))
      = sum_list (map (\<lambda>v. (sgn a * sgn c / S) * ((v - zbar) * (v - zbar))) zs)"
  proof -
    have eq: "a * (v - zbar) / (\<bar>a\<bar> * sqrt S) * (c * (v - zbar) / (\<bar>c\<bar> * sqrt S))
        = (sgn a * sgn c / S) * ((v - zbar) * (v - zbar))" for v
    proof -
      have "a * (v - zbar) / (\<bar>a\<bar> * sqrt S) = sgn a * ((v - zbar) / sqrt S)"
        using a by (simp add: sgn_if abs_if minus_divide_left)
      moreover have "c * (v - zbar) / (\<bar>c\<bar> * sqrt S) = sgn c * ((v - zbar) / sqrt S)"
        using c by (simp add: sgn_if abs_if minus_divide_left)
      moreover have "sqrt S * sqrt S = S" using S by simp
      ultimately show ?thesis by (simp add: field_simps)
    qed
    show ?thesis by (simp only: map2_map_map eq)
  qed
  also have "\<dots> = (sgn a * sgn c / S) * S"
    unfolding S_def by (rule sum_list_scale)
  also have "\<dots> = sgn a * sgn c" using S by simp
  finally have r: "sum_list (map2 (\<lambda>x y. x / (\<bar>a\<bar> * sqrt S) * (y / (\<bar>c\<bar> * sqrt S)))
            (map (\<lambda>v. a * (v - zbar)) zs) (map (\<lambda>v. c * (v - zbar)) zs)) = sgn a * sgn c" .
  have clip: "max (min (sgn a * sgn c) 1) (- 1) = sgn a * sgn c"
    using a c by (simp add: sgn_if)
  show ?thesis
    unfolding pearson_statistic_def Let_def length_map mean centred norm r
    by (rule clip)
qed

lemma array_min_Min: "zs \<noteq> [] \<Longrightarrow> array_min zs = Min (set zs)"
  by (cases zs) (simp_all add: array_min_def Min.set_eq_fold del: set_simps)

lemma array_max_Max: "zs \<noteq> [] \<Longrightarrow> array_max zs = Max (set zs)"
  by (cases zs) (simp_all add: array_max_def Max.set_eq_fold del: set_simps)

lemma array_min_affine:
  assumes "zs \<noteq> []" "0 < k"
  shows "array_min (map (\<lambda>v. k * v + l) zs) = k * array_min zs + l"
proof -
  have m: "mono (\<lambda>v :: real. k * v + l)"
    using assms(2) by (intro monoI) simp
  have "array_min (map (\<lambda>v. k * v + l) zs) = Min ((\<lambda>v. k * v + l) ` set zs)"
    using assms(1) by (simp add: array_min_Min)
  also have "\<dots> = k * Min (set zs) + l"
    using mono_Min_commute [OF m, of "set zs"] assms(1) by simp
  finally show ?thesis using assms(1) by (simp add: array_min_Min)
qed

lemma array_max_affine:
  assumes "zs \<noteq> []" "0 < k"
  shows "array_max (map (\<lambda>v. k * v + l) zs) = k * array_max zs + l"
proof -
  have m: "mono (\<lambda>v :: real. k * v + l)"
    using assms(2) by (intro monoI) simp
  have "array_max (map (\<lambda>v. k * v + l) zs) = Max ((\<lambda>v. k * v + l) ` set zs)"
    using assms(1) by (simp add: array_max_Max)
  also have "\<dots> = k * Max (set zs) + l"
    using mono_Max_commute [OF m, of "set zs"] assms(1) by simp
  finally show ?thesis using assms(1) by (simp add: array_max_Max)
qed

lemma reals_of_Real: "reals_of (map Real xs) = Some xs"
  by (induction xs) simp_all

lemma normalized_affine:
  assumes "mx \<noteq> 0"
  shows "map (\<lambda>v. np_divide v mx) (map (\<lambda>v. v - mn) zs)
       = map Real (map (\<lambda>v. (1 / mx) * v + (- mn / mx)) zs)"
  using assms by (simp add: np_divide_def field_simps)

lemma not_constant_length: "\<exists>v \<in> set zs. v \<noteq> hd zs \<Longrightarrow> 2 \<le> length zs"
  by (cases zs; cases "tl zs") auto

lemma not_constant_affine:
  assumes "\<exists>v \<in> set zs. v \<noteq> hd zs" "k \<noteq> 0"
  shows "\<not> list_all (\<lambda>v. v = hd (map (\<lambda>v :: real. k * v + l) zs)) (map (\<lambda>v. k * v + l) zs)"
proof -
  from assms(1) obtain v where v: "v \<in> set zs" "v \<noteq> hd zs" by blast
  then have ne: "zs \<noteq> []" by auto
  have "k * v + l \<noteq> k * hd zs + l" using v(2) assms(2) by simp
  then show ?thesis
    using v(1) ne by (auto simp: list_all_iff hd_map)
qed

lemma similarity_core:
  assumes nc: "\<exists>v \<in> set zs. v \<noteq> hd zs"
    and al: "0 < \<alpha>"
    and mx: "array_max zs \<noteq> 0"
    and mx': "\<alpha> * array_max zs + \<beta> \<noteq> 0"
    and p: "flatten pmat = zs"
    and i: "flatten imat = map (\<lambda>v. \<alpha> * v + \<beta>) zs"
  shows "calculation_correlation_pearson_tsv_normalized pmat imat
       = Inr (Real (sgn (array_max zs) * sgn (\<alpha> * array_max zs + \<beta>)))"
proof -
  from nc have ne: "zs \<noteq> []" by auto
  have len: "2 \<le> length zs" by (rule not_constant_length [OF nc])
  let ?a = "1 / array_max zs" and ?b = "- array_min zs / array_max zs"
  let ?c = "\<alpha> / (\<alpha> * array_max zs + \<beta>)"
  let ?d = "- (\<alpha> * array_min zs) / (\<alpha> * array_max zs + \<beta>)"
  have np: "map (\<lambda>v. np_divide v (array_max zs)) (map (\<lambda>v. v - array_min zs) zs)
       = map Real (map (\<lambda>v. ?a * v + ?b) zs)"
    by (rule normalized_affine) (use mx in simp)
  have "map (\<lambda>v. np_divide v (\<alpha> * array_max zs + \<beta>))
          (map (\<lambda>v. v - (\<alpha> * array_min zs + \<beta>)) (map (\<lambda>v. \<alpha> * v + \<beta>) zs))
       = map Real (map (\<lambda>v. ?c * v + ?d) zs)"
    using mx' by (simp add: np_divide_def diff_divide_distrib)
  then have ni: "map (\<lambda>v. np_divide v (array_max (map (\<lambda>v. \<alpha> * v + \<beta>) zs)))
          (map (\<lambda>v. v - array_min (map (\<lambda>v. \<alpha> * v + \<beta>) zs)) (map (\<lambda>v. \<alpha> * v + \<beta>) zs))
       = map Real (map (\<lambda>v. ?c * v + ?d) zs)"
    by (simp only: array_min_affine [OF ne al] array_max_affine [OF ne al])
  have a: "?a \<noteq> 0" using mx by simp
  have c: "?c \<noteq> 0" using al mx' by simp
  have sa: "sgn ?a = sgn (array_max zs)"
    using mx by (simp add: sgn_if)
  have sc: "sgn ?c = sgn (\<alpha> * array_max zs + \<beta>)"
    using al mx' by (simp add: sgn_if zero_less_divide_iff)
  have r: "pearson_statistic (map (\<lambda>v. ?a * v + ?b) zs) (map (\<lambda>v. ?c * v + ?d) zs)
      = sgn (array_max zs) * sgn (\<alpha> * array_max zs + \<beta>)"
    using pearson_statistic_affine [OF nc a c] by (simp only: sa sc)
  have c1: "\<not> list_all (\<lambda>v. v = hd (map (\<lambda>v. ?a * v + ?b) zs)) (map (\<lambda>v. ?a * v + ?b) zs)"
    by (rule not_constant_affine [OF nc a])
  have c2: "\<not> list_all (\<lambda>v. v = hd (map (\<lambda>v. ?c * v + ?d) zs)) (map (\<lambda>v. ?c * v + ?d) zs)"
    by (rule not_constant_affine [OF nc c])
  have "pearsonr (map Real (map (\<lambda>v. ?a * v + ?b) zs)) (map Real (map (\<lambda>v. ?c * v + ?d) zs))
      = Inr (Real (sgn (array_max zs) * sgn (\<alpha> * array_max zs + \<beta>)))"
    unfolding pearsonr_def Let_def reals_of_Real
    using len c1 c2 r by simp
  then show ?thesis
    unfolding calculation_correlation_pearson_tsv_normalized_def Let_def p i np ni
    using ne by simp
qed

lemma flatten_rescaled:
  "flatten (map (map f) img) = map f (flatten img)"
  by (simp add: flatten_def map_concat)

text \<open>
  Claim C9, amended. For an image that is not constant and has a positive maximum, and
  its rescaling by \<open>\<alpha> > 0\<close> and \<open>\<beta>\<close> when the maximum \<open>\<alpha> max + \<beta>\<close> of the rescaled
  image is positive too, the similarity is 1 (over the reals); so is the similarity of
  the image with itself.
\<close>

theorem similarity_affine_invariant:
  assumes "\<exists>v \<in> set (flatten img). v \<noteq> hd (flatten img)"
    and "0 < \<alpha>"
    and "0 < array_max (flatten img)"
    and "0 < \<alpha> * array_max (flatten img) + \<beta>"
  shows "calculation_correlation_pearson_tsv_normalized img (map (map (\<lambda>v. \<alpha> * v + \<beta>)) img)
           = Inr (Real 1)
       \<and> calculation_correlation_pearson_tsv_normalized img img = Inr (Real 1)"
proof -
  have "calculation_correlation_pearson_tsv_normalized img (map (map (\<lambda>v. \<alpha> * v + \<beta>)) img)
      = Inr (Real (sgn (array_max (flatten img)) * sgn (\<alpha> * array_max (flatten img) + \<beta>)))"
    by (rule similarity_core [OF assms(1,2)]) (use assms(3,4) in \<open>simp_all add: flatten_rescaled\<close>)
  then have first: "calculation_correlation_pearson_tsv_normalized img
      (map (map (\<lambda>v. \<alpha> * v + \<beta>)) img) = Inr (Real 1)"
    using assms(3,4) by simp
  have "calculation_correlation_pearson_tsv_normalized img img
      = Inr (Real (sgn (array_max (flatten img)) * sgn (1 * array_max (flatten img) + 0)))"
    by (rule similarity_core [OF assms(1)]) (use assms(3) in simp_all)
  then have second: "calculation_correlation_pearson_tsv_normalized img img = Inr (Real 1)"
    using assms(3) by simp
  show ?thesis using first second by blast
qed

lemma array_max_example: "array_max [0, 1, 2, 3] = 3" "array_max [-3, -2, -2, -1] = - 1"
  by (simp_all add: array_max_def)

theorem similarity_affine_invariant_witness:
  "calculation_correlation_pearson_tsv_normalized [[0, 1], [2, 3]] [[1, 3], [5, 7]] = Inr (Real 1)
   \<and> calculation_correlation_pearson_tsv_normalized [[0, 1], [2, 3]] [[0, 1], [2, 3]] = Inr (Real 1)"
proof -
  have nc: "\<exists>v \<in> set (flatten [[0, 1], [2, 3 :: real]]). v \<noteq> hd (flatten [[0, 1], [2, 3]])"
    by (simp add: flatten_def)
  have al: "(0 :: real) < 2" by simp
  have mx: "0 < array_max (flatten [[0, 1], [2, 3 :: real]])"
    by (simp add: flatten_def array_max_example)
  have mx': "0 < 2 * array_max (flatten [[0, 1], [2, 3 :: real]]) + 1"
    by (simp add: flatten_def array_max_example)
  show ?thesis
    using similarity_affine_invariant [OF nc al mx mx'] by simp
qed

text \<open>
  Claim C9 as stated fails for a constant image: its similarity with itself is \<open>nan\<close>,
  the value \<open>pearsonr\<close> gives for a constant input.
\<close>

theorem similarity_constant_image_counterexample:
  "calculation_correlation_pearson_tsv_normalized [[1, 1], [1, 1]] [[1, 1], [1, 1]] = Inr NaN"
  by (simp add: calculation_correlation_pearson_tsv_normalized_def flatten_def array_min_def
      array_max_def np_divide_def pearsonr_def Let_def)

text \<open>
  The division is by the maximum of the image as read. An image of negative maximum is
  mirrored by it, and its similarity with a copy shifted to a positive maximum is \<open>-1\<close>.
\<close>

lemma similarity_negative_maximum:
  "calculation_correlation_pearson_tsv_normalized
     [[- 3, - 2], [- 2, - 1]] [[7, 8], [8, 9]] = Inr (Real (- 1))"
proof -
  have nc: "\<exists>v \<in> set [- 3, - 2, - 2, - 1 :: real]. v \<noteq> hd [- 3, - 2, - 2, - 1]"
    by simp
  have "calculation_correlation_pearson_tsv_normalized [[- 3, - 2], [- 2, - 1]] [[7, 8], [8, 9]]
      = Inr (Real (sgn (array_max [- 3, - 2, - 2, - 1]) * sgn (1 * array_max [- 3, - 2, - 2, - 1] + 10)))"
    by (rule similarity_core [OF nc]) (simp_all add: flatten_def array_max_example)
  then show ?thesis
    by (simp add: array_max_example)
qed




end
